theory Spec2Isabelle
  imports Complex_Main "HOL-Library.Char_ord" "HOL-Library.List_Lexorder" "HOL-Library.Log_Nat"
begin

section \<open>Occurrence metrics scanner (scripts/scan\_occurrence\_metrics.py)\<close>

text \<open>
  The script reads occurrence tables with pandas and counts, per species and overall,
  how many United States records carry each quality flag. The embedding keeps the
  script's column-at-a-time style: a pandas Series is a list, a DataFrame is a header
  with its rows, and the two library parsers the script calls (\<open>pd.to_datetime\<close> and
  \<open>pd.to_numeric\<close>) are parameters of the model, applied cell by cell. Cells are text
  or missing, as \<open>dtype=str\<close> reads them; an exception is a value \<open>Inl\<close> of a sum type.
  The row-level helpers of lines 24 to 117 of the script are never called, except
  \<open>basis_bucket\<close>, and are not part of the model.
\<close>

subsection \<open>Strings\<close>

text \<open>
  Python's \<open>str\<close> methods on the ASCII range. \<open>is_space\<close> is \<open>str.isspace\<close> for one
  character (tab, line feed, vertical tab, form feed, carriage return, the four
  separators 28..31 and the space); it is also the class \<open>\s\<close> of \<open>re\<close>.
\<close>

definition is_space :: "char \<Rightarrow> bool" where
  "is_space c = (of_char c \<in> {9, 10, 11, 12, 13, 28, 29, 30, 31, 32 :: nat})"

definition is_digit :: "char \<Rightarrow> bool" where
  "is_digit c = (48 \<le> (of_char c :: nat) \<and> (of_char c :: nat) \<le> 57)"

definition is_upper :: "char \<Rightarrow> bool" where
  "is_upper c = (65 \<le> (of_char c :: nat) \<and> (of_char c :: nat) \<le> 90)"

definition is_lower :: "char \<Rightarrow> bool" where
  "is_lower c = (97 \<le> (of_char c :: nat) \<and> (of_char c :: nat) \<le> 122)"

text \<open>\<open>\w\<close> of \<open>re\<close>: letters, digits and the underscore.\<close>

definition is_word :: "char \<Rightarrow> bool" where
  "is_word c = (is_upper c \<or> is_lower c \<or> is_digit c \<or> c = CHR ''_'')"

definition lower_char :: "char \<Rightarrow> char" where
  "lower_char c = (if is_upper c then char_of (of_char c + (32 :: nat)) else c)"

definition upper_char :: "char \<Rightarrow> char" where
  "upper_char c = (if is_lower c then char_of (of_char c - (32 :: nat)) else c)"

definition lower :: "string \<Rightarrow> string" where
  "lower s = map lower_char s"

definition upper :: "string \<Rightarrow> string" where
  "upper s = map upper_char s"

definition strip :: "string \<Rightarrow> string" where
  "strip s = rev (dropWhile is_space (rev (dropWhile is_space s)))"

text \<open>\<open>s.replace(a, b)\<close> for single characters \<open>a\<close> and \<open>b\<close>.\<close>

definition replace_char :: "char \<Rightarrow> char \<Rightarrow> string \<Rightarrow> string" where
  "replace_char a b s = map (\<lambda>c. if c = a then b else c) s"

definition startswith :: "string \<Rightarrow> string \<Rightarrow> bool" where
  "startswith s p = (take (length p) s = p)"

definition endswith :: "string \<Rightarrow> string \<Rightarrow> bool" where
  "endswith s p = (length p \<le> length s \<and> drop (length s - length p) s = p)"

text \<open>\<open>sub in s\<close>: \<open>sub\<close> occurs in \<open>s\<close> as a contiguous substring.\<close>

fun contains :: "string \<Rightarrow> string \<Rightarrow> bool" where
  "contains [] sub = (sub = [])"
| "contains (c # cs) sub = (startswith (c # cs) sub \<or> contains cs sub)"

text \<open>\<open>s.split('/', 1)[0]\<close>: the text before the first \<open>/\<close>, the whole text when there is none.\<close>

definition before_slash :: "string \<Rightarrow> string" where
  "before_slash s = takeWhile (\<lambda>c. c \<noteq> CHR ''/'') s"

subsection \<open>Regular expressions\<close>

text \<open>
  The patterns of the script, as syntax trees for a backtracking matcher. Every pattern
  of the script is either compiled with \<open>re.I\<close> or made of digits only, so a literal
  compares case-insensitively. A matching state is the text already consumed (reversed)
  and the text still ahead.
\<close>

datatype cls = AnyChar | Space | Digit

datatype rx =
    Lit string
  | Cl cls
  | Seq rx rx
  | Alt rx rx
  | Opt rx
  | Star cls
  | WordB
  | Bos
  | Eos

fun in_cls :: "cls \<Rightarrow> char \<Rightarrow> bool" where
  "in_cls AnyChar c = (c \<noteq> CHR 0x0A)"
| "in_cls Space c = is_space c"
| "in_cls Digit c = is_digit c"

type_synonym mstate = "string \<times> string"

text \<open>All the ways a greedy \<open>k*\<close> can stop, the longest first.\<close>

fun star_ends :: "cls \<Rightarrow> string \<Rightarrow> string \<Rightarrow> mstate list" where
  "star_ends k pre [] = [(pre, [])]"
| "star_ends k pre (c # cs) =
     (if in_cls k c then star_ends k (c # pre) cs @ [(pre, c # cs)] else [(pre, c # cs)])"

definition word_at :: "string \<Rightarrow> bool" where
  "word_at s = (case s of [] \<Rightarrow> False | c # _ \<Rightarrow> is_word c)"

fun rx_ends :: "rx \<Rightarrow> mstate \<Rightarrow> mstate list" where
  "rx_ends (Lit w) (pre, s) =
     (if length w \<le> length s \<and> lower (take (length w) s) = lower w
      then [(rev (take (length w) s) @ pre, drop (length w) s)] else [])"
| "rx_ends (Cl k) (pre, s) =
     (case s of [] \<Rightarrow> [] | c # cs \<Rightarrow> if in_cls k c then [(c # pre, cs)] else [])"
| "rx_ends (Seq a b) st = concat (map (rx_ends b) (rx_ends a st))"
| "rx_ends (Alt a b) st = rx_ends a st @ rx_ends b st"
| "rx_ends (Opt a) st = rx_ends a st @ [st]"
| "rx_ends (Star k) (pre, s) = star_ends k pre s"
| "rx_ends WordB (pre, s) = (if word_at pre \<noteq> word_at s then [(pre, s)] else [])"
| "rx_ends Bos (pre, s) = (if pre = [] then [(pre, s)] else [])"
| "rx_ends Eos (pre, s) = (if s = [] \<or> s = [CHR 0x0A] then [(pre, s)] else [])"

text \<open>
  \<open>pattern.search(s)\<close>: the first match, scanning start positions from the left. The
  result is the text before the match, the matched text and the text after it.
\<close>

fun rx_search_from :: "rx \<Rightarrow> string \<Rightarrow> string \<Rightarrow> (string \<times> string \<times> string) option" where
  "rx_search_from r pre s =
     (case rx_ends r (pre, s) of
        (pre', s') # _ \<Rightarrow> Some (rev pre, rev (take (length pre' - length pre) pre'), s')
      | [] \<Rightarrow> (case s of [] \<Rightarrow> None | c # cs \<Rightarrow> rx_search_from r (c # pre) cs))"

definition rx_search :: "rx \<Rightarrow> string \<Rightarrow> (string \<times> string \<times> string) option" where
  "rx_search r s = rx_search_from r [] s"

definition rx_found :: "rx \<Rightarrow> string \<Rightarrow> bool" where
  "rx_found r s = (rx_search r s \<noteq> None)"

text \<open>\<open>Series.str.extract(pattern)\<close> on one text, for a pattern that is one group.\<close>

definition rx_extract :: "rx \<Rightarrow> string \<Rightarrow> string option" where
  "rx_extract r s = map_option (\<lambda>(before, matched, after). matched) (rx_search r s)"

text \<open>\<open>re.sub(pattern, "", s)\<close> for a pattern that ends in \<open>$\<close> and so matches at most once.\<close>

definition rx_remove :: "rx \<Rightarrow> string \<Rightarrow> string" where
  "rx_remove r s = (case rx_search r s of None \<Rightarrow> s | Some (before, matched, after) \<Rightarrow> before @ after)"

fun alts :: "rx list \<Rightarrow> rx" where
  "alts [] = Lit []"
| "alts [r] = r"
| "alts (r # rs) = Alt r (alts rs)"

fun seqs :: "rx list \<Rightarrow> rx" where
  "seqs [] = Lit []"
| "seqs [r] = r"
| "seqs (r # rs) = Seq r (seqs rs)"

text \<open>
  \<^verbatim>\<open>CAPTIVE_HINTS = re.compile(r"\b(zoo|captive|captiv(e|ity)|pet\s?store|collection|terrarium|museum\s?display)\b", re.I)\<close>
\<close>

definition CAPTIVE_HINTS :: rx where
  "CAPTIVE_HINTS = seqs [WordB,
     alts [Lit ''zoo'', Lit ''captive'',
           Seq (Lit ''captiv'') (Alt (Lit ''e'') (Lit ''ity'')),
           seqs [Lit ''pet'', Opt (Cl Space), Lit ''store''],
           Lit ''collection'', Lit ''terrarium'',
           seqs [Lit ''museum'', Opt (Cl Space), Lit ''display'']],
     WordB]"

text \<open>
  \<^verbatim>\<open>DATE_REGEX = re.compile(r"(event|observ(ed|ation)?|collect(ed|ion)?|time).*date|^date$", re.I)\<close>
\<close>

definition DATE_REGEX :: rx where
  "DATE_REGEX = Alt
     (seqs [alts [Lit ''event'',
                  Seq (Lit ''observ'') (Opt (Alt (Lit ''ed'') (Lit ''ation''))),
                  Seq (Lit ''collect'') (Opt (Alt (Lit ''ed'') (Lit ''ion''))),
                  Lit ''time''],
            Star AnyChar, Lit ''date''])
     (seqs [Bos, Lit ''date'', Eos])"

text \<open>The pattern of \<open>txt.str.extract(r"((?:19|20)\d{2})")\<close>.\<close>

definition YEAR_EXTRACT :: rx where
  "YEAR_EXTRACT = seqs [Alt (Lit ''19'') (Lit ''20''), Cl Digit, Cl Digit]"

text \<open>\<^verbatim>\<open>r"\.(csv|tsv|txt|ndjson)(\.gz)?$"\<close> with \<open>re.I\<close>: the names of the per-species files.\<close>

definition TABULAR_EXT :: rx where
  "TABULAR_EXT = seqs [Lit ''.'', alts [Lit ''csv'', Lit ''tsv'', Lit ''txt'', Lit ''ndjson''],
     Opt (Lit ''.gz''), Eos]"

subsection \<open>Constants of the script\<close>

definition US_COUNTRY_TOKENS :: "string list" where
  "US_COUNTRY_TOKENS = [''US'', ''USA'', ''United States'', ''United States of America'']"

definition GBIF_BAD_ISSUES :: "string list" where
  "GBIF_BAD_ISSUES = [''ZERO_COORDINATE'', ''COORDINATE_OUT_OF_RANGE'',
     ''COUNTRY_COORDINATE_MISMATCH'', ''COUNTRY_MISMATCH'', ''RECORDED_DATE_INVALID'',
     ''RECORDED_DATE_MISMATCH'']"

definition DATE_PRIORITIES :: "string list" where
  "DATE_PRIORITIES = [''eventDate'', ''verbatimEventDate'', ''observed_on'', ''time_observed_at'',
     ''observation_date'', ''ObservationDate'', ''dateObserved'', ''date_observed'',
     ''date_collected'', ''collectionDate'', ''verbatim_date'', ''date'', ''Date'']"

definition BASIS_KEYS :: "string list" where
  "BASIS_KEYS = [''HumanObservation'', ''Observation'', ''MachineObservation'',
     ''PreservedSpecimen'', ''FossilSpecimen'', ''Other'']"

subsection \<open>\<open>basis_bucket\<close>\<close>

text \<open>
  \<open>str(val or "")\<close> of a text value is the value itself; the callers replace a missing
  value by \<open>"Other"\<close> before the call.
\<close>

definition basis_bucket :: "string \<Rightarrow> string" where
  "basis_bucket val =
     (let v = strip val in
      if v \<in> set [''HumanObservation'', ''Observation'', ''MachineObservation'',
                   ''PreservedSpecimen'', ''FossilSpecimen'']
      then v
      else
        let su = replace_char (CHR ''-'') (CHR ''_'') (replace_char (CHR '' '') (CHR ''_'') (upper v)) in
        if contains su ''HUMAN'' then ''HumanObservation''
        else if contains su ''MACHINE'' then ''MachineObservation''
        else if contains su ''FOSSIL'' then ''FossilSpecimen''
        else if contains su ''PRESERVED'' \<or> contains su ''SPECIMEN'' then ''PreservedSpecimen''
        else if contains su ''OBSERVATION'' then ''Observation''
        else ''Other'')"

subsection \<open>Numbers and instants\<close>

text \<open>
  A numeric cell after \<open>pd.to_numeric(..., errors="coerce")\<close>: a float, which is a real
  number, an infinity or NaN. Comparisons with NaN are false.
\<close>

datatype fnum = NaN | NegInf | Fin real | PosInf

fun le_c :: "fnum \<Rightarrow> real \<Rightarrow> bool" where
  "le_c NaN c = False"
| "le_c NegInf c = True"
| "le_c (Fin r) c = (r \<le> c)"
| "le_c PosInf c = False"

fun ge_c :: "fnum \<Rightarrow> real \<Rightarrow> bool" where
  "ge_c NaN c = False"
| "ge_c NegInf c = False"
| "ge_c (Fin r) c = (c \<le> r)"
| "ge_c PosInf c = True"

text \<open>\<open>Series.between(lo, hi)\<close> on one value: both ends included.\<close>

definition between_c :: "real \<Rightarrow> real \<Rightarrow> fnum \<Rightarrow> bool" where
  "between_c lo hi x = (ge_c x lo \<and> le_c x hi)"

text \<open>
  An instant is a UTC timestamp, counted in days since 1970-01-01T00:00Z (a fraction is
  the time of day); \<open>NaT\<close> is \<open>None\<close>. \<open>days_from_civil\<close> is the day number of a
  proleptic Gregorian calendar date.
\<close>

type_synonym instant = real

definition days_from_civil :: "int \<Rightarrow> int \<Rightarrow> int \<Rightarrow> int" where
  "days_from_civil y m d =
     (let y' = (if m \<le> 2 then y - 1 else y);
          era = y' div 400;
          yoe = y' - era * 400;
          mp = (m + 9) mod 12;
          doy = (153 * mp + 2) div 5 + d - 1;
          doe = yoe * 365 + yoe div 4 - yoe div 100 + doy
      in era * 146097 + doe - 719468)"

definition timestamp :: "int \<Rightarrow> int \<Rightarrow> int \<Rightarrow> instant" where
  "timestamp y m d = of_int (days_from_civil y m d)"

subsection \<open>The pandas parsers\<close>

text \<open>
  \<open>pd.to_datetime(text, errors="coerce", utc=True)\<close> and
  \<open>pd.to_numeric(text, errors="coerce")\<close> belong to pandas, not to the script: the
  model takes them as parameters, one text cell at a time. A missing cell gives NaT
  and NaN whatever the parsers are.
\<close>

record pandas =
  to_datetime :: "string \<Rightarrow> instant option"
  to_numeric :: "string \<Rightarrow> fnum"

type_synonym cell = "string option"

definition datetime_cell :: "pandas \<Rightarrow> cell \<Rightarrow> instant option" where
  "datetime_cell pd c = (case c of None \<Rightarrow> None | Some s \<Rightarrow> to_datetime pd s)"

definition numeric_cell :: "pandas \<Rightarrow> cell \<Rightarrow> fnum" where
  "numeric_cell pd c = (case c of None \<Rightarrow> NaN | Some s \<Rightarrow> to_numeric pd s)"

subsection \<open>Series and frames\<close>

text \<open>
  A frame read with \<open>dtype=str\<close>: its header and its rows, each row giving the cell
  under a column name (\<open>None\<close> is a missing cell). A column is read off the rows, so all
  columns of a frame have the frame's length.
\<close>

record frame =
  header :: "string list"
  rows :: "(string \<Rightarrow> cell) list"

definition has_column :: "frame \<Rightarrow> string \<Rightarrow> bool" where
  "has_column df name = (name \<in> set (header df))"

definition column :: "frame \<Rightarrow> string \<Rightarrow> cell list" where
  "column df name = map (\<lambda>r. r name) (rows df)"

definition fillna :: "'a \<Rightarrow> 'a option list \<Rightarrow> 'a list" where
  "fillna d s = map (\<lambda>c. case c of None \<Rightarrow> d | Some v \<Rightarrow> v) s"

text \<open>\<open>a.fillna(b)\<close> for two Series: the cell of \<open>b\<close> where \<open>a\<close> has none.\<close>

definition fill_from :: "'a option list \<Rightarrow> 'a option list \<Rightarrow> 'a option list" where
  "fill_from a b = map2 (\<lambda>x y. case x of None \<Rightarrow> y | Some v \<Rightarrow> Some v) a b"

definition isin :: "string list \<Rightarrow> cell list \<Rightarrow> bool list" where
  "isin toks s = map (\<lambda>c. case c of None \<Rightarrow> False | Some v \<Rightarrow> v \<in> set toks) s"

definition notna :: "'a option list \<Rightarrow> bool list" where
  "notna s = map (\<lambda>c. c \<noteq> None) s"

definition s_and :: "bool list \<Rightarrow> bool list \<Rightarrow> bool list" where
  "s_and a b = map2 (\<and>) a b"

definition s_or :: "bool list \<Rightarrow> bool list \<Rightarrow> bool list" where
  "s_or a b = map2 (\<or>) a b"

text \<open>\<open>int(mask.sum())\<close>.\<close>

definition count :: "bool list \<Rightarrow> nat" where
  "count m = length (filter (\<lambda>b. b) m)"

definition numeric :: "pandas \<Rightarrow> cell list \<Rightarrow> fnum list" where
  "numeric pd s = map (numeric_cell pd) s"

definition datetime :: "pandas \<Rightarrow> cell list \<Rightarrow> instant option list" where
  "datetime pd s = map (datetime_cell pd) s"

definition between :: "real \<Rightarrow> real \<Rightarrow> fnum list \<Rightarrow> bool list" where
  "between lo hi s = map (between_c lo hi) s"

definition notna_num :: "fnum list \<Rightarrow> bool list" where
  "notna_num s = map (\<lambda>x. x \<noteq> NaN) s"

text \<open>\<open>dt >= pd.Timestamp("2010-01-01", tz="UTC")\<close>: false on NaT.\<close>

definition since_2010 :: "instant option list \<Rightarrow> bool list" where
  "since_2010 s = map (\<lambda>t. case t of None \<Rightarrow> False | Some x \<Rightarrow> timestamp 2010 1 1 \<le> x) s"

definition any_bad_issue :: "string \<Rightarrow> bool" where
  "any_bad_issue s = (\<exists>code \<in> set GBIF_BAD_ISSUES. contains s code)"

definition CAPTIVE_MEANS :: "string list" where
  "CAPTIVE_MEANS = [''captive'', ''managed'', ''captive/managed'']"

text \<open>
  The flag Series both scans compute from their resolved columns, by the same
  expressions (lines 194 to 201 and 353 to 359 of the script).
\<close>

definition basis_series :: "cell list \<Rightarrow> string list" where
  "basis_series basis = map basis_bucket (fillna ''Other'' basis)"

definition valid_series :: "fnum list \<Rightarrow> fnum list \<Rightarrow> bool list" where
  "valid_series lat lon = s_and (between (- 90) 90 lat) (between (- 180) 180 lon)"

definition unc2k_series :: "fnum list \<Rightarrow> bool list" where
  "unc2k_series unc = s_and (notna_num unc) (map (\<lambda>u. le_c u 2000) unc)"

definition gbad_series :: "cell list \<Rightarrow> bool list" where
  "gbad_series issues = map any_bad_issue (map upper (fillna [] issues))"

definition text_blob :: "cell list \<Rightarrow> cell list \<Rightarrow> cell list \<Rightarrow> string list" where
  "text_blob remarks locality habitat =
     map2 (\<lambda>r (l, h). r @ '' '' @ l @ '' '' @ h)
       (fillna [] remarks) (zip (fillna [] locality) (fillna [] habitat))"

definition captive_series :: "cell list \<Rightarrow> cell list \<Rightarrow> cell list \<Rightarrow> cell list \<Rightarrow> bool list" where
  "captive_series estm remarks locality habitat =
     s_or (map (\<lambda>s. s \<in> set CAPTIVE_MEANS) (map lower (fillna [] estm)))
          (map (rx_found CAPTIVE_HINTS) (text_blob remarks locality habitat))"

text \<open>\<open>s.fillna("").ne("")\<close>.\<close>

definition nonempty :: "cell list \<Rightarrow> bool list" where
  "nonempty s = map (\<lambda>v. v \<noteq> []) (fillna [] s)"

subsection \<open>Counters and species rows\<close>

text \<open>
  The dictionary \<open>overall\<close> (and its per-species copies \<open>sp\<close>). \<open>basis_counts\<close> is the
  nested dictionary: its keys are \<open>BASIS_KEYS\<close>, and the model reads it at those keys only.
\<close>

record counters =
  total_records :: nat
  usa_records :: nat
  dated_any :: nat
  dated_full :: nat
  post_2010 :: nat
  basis_counts :: "string \<Rightarrow> nat"
  captive_flagged :: nat
  valid_coords :: nat
  uncertainty_le_2km :: nat
  gbif_issue_flagged :: nat
  has_media :: nat

definition zero_counters :: counters where
  "zero_counters = \<lparr>total_records = 0, usa_records = 0, dated_any = 0, dated_full = 0,
     post_2010 = 0, basis_counts = (\<lambda>k. 0), captive_flagged = 0, valid_coords = 0,
     uncertainty_le_2km = 0, gbif_issue_flagged = 0, has_media = 0\<rparr>"

text \<open>The sum of the six bucket counts of a counter dictionary.\<close>

definition basis_total :: "counters \<Rightarrow> nat" where
  "basis_total c = sum_list (map (basis_counts c) BASIS_KEYS)"

text \<open>
  The percentages are Python floats, that is IEEE 754 doubles; the model takes a float
  as the real number it stands for. \<open>round_half_even\<close> is the closest integer, the even
  one when two are equally close.
\<close>

definition round_half_even :: "real \<Rightarrow> int" where
  "round_half_even x =
     (let f = \<lfloor>x\<rfloor>; d = x - of_int f in
      if d < 1 / 2 then f else if 1 / 2 < d then f + 1 else if even f then f else f + 1)"

definition pow2 :: "int \<Rightarrow> real" where
  "pow2 e = (if 0 \<le> e then 2 ^ nat e else 1 / 2 ^ nat (- e))"

text \<open>
  The binary exponent of a quotient \<open>n / d\<close> of positive integers: the \<open>e\<close> with
  \<open>2 ^ e \<le> n / d < 2 ^ (e + 1)\<close>, found from the bit lengths (\<open>int.bit_length\<close>).
\<close>

definition binary_exponent :: "int \<Rightarrow> int \<Rightarrow> int" where
  "binary_exponent n d =
     (let e = bitlen n - bitlen d in if pow2 e \<le> of_int n / of_int d then e else e - 1)"

text \<open>
  The double closest to \<open>n / d\<close>, for \<open>0 \<le> n\<close> and \<open>0 < d\<close>: the quotient is rounded to a
  multiple of \<open>2 ^ (e - 52)\<close>, which leaves 53 significant bits, or of \<open>2 ^ (- 1074)\<close> in the
  subnormal range, to the even multiple when two are equally close. The exponent has
  no upper bound here: Python raises \<open>OverflowError\<close> for a quotient of \<open>2 ^ 1024\<close> or
  more, and the quotients of the script are at most 1 (a counter of a species never
  exceeds its \<open>usa_records\<close>).
\<close>

definition nearest_double :: "int \<Rightarrow> int \<Rightarrow> real" where
  "nearest_double n d =
     (if n = 0 then 0 else
      let q = max (binary_exponent n d) (- 1022) - 52
      in of_int (round_half_even (of_int n / of_int d / pow2 q)) * pow2 q)"

text \<open>\<open>a / b\<close> for two \<open>int\<close>: the double closest to the quotient.\<close>

definition true_divide :: "nat \<Rightarrow> nat \<Rightarrow> real" where
  "true_divide a b = nearest_double (int a) (int b)"

text \<open>
  \<open>round(x, 4)\<close> for a float \<open>x\<close>: CPython writes the exact value of \<open>x\<close> with four
  decimals, correctly rounded (half to even), and reads the decimal back as a double.
  So \<open>round(1/160, 4)\<close> is 0.0063, because the double of 1/160 lies above 0.00625.
\<close>

definition round4 :: "real \<Rightarrow> real" where
  "round4 x = nearest_double (round_half_even (x * 10000)) 10000"

text \<open>One row of the per-species table: the identifier, the counters, the five percentages.\<close>

record species_row =
  species_id :: string
  counts :: counters
  pct_dated_any :: real
  pct_dated_full :: real
  pct_post_2010 :: real
  pct_uncertainty_le_2km :: real
  pct_captive_flagged :: real

text \<open>\<open>denom = sp["usa_records"] or 1\<close> and the five rounded quotients.\<close>

definition finalize :: "string \<Rightarrow> counters \<Rightarrow> species_row" where
  "finalize sid sp =
     (let denom = (if usa_records sp = 0 then 1 else usa_records sp) in
      \<lparr>species_id = sid, counts = sp,
       pct_dated_any = round4 (true_divide (dated_any sp) denom),
       pct_dated_full = round4 (true_divide (dated_full sp) denom),
       pct_post_2010 = round4 (true_divide (post_2010 sp) denom),
       pct_uncertainty_le_2km = round4 (true_divide (uncertainty_le_2km sp) denom),
       pct_captive_flagged = round4 (true_divide (captive_flagged sp) denom)\<rparr>)"

subsection \<open>Per-record flags\<close>

text \<open>The flag Series a scan computes for one frame, one entry per row.\<close>

record flags =
  us_mask :: "bool list"
  dated_any_mask :: "bool list"
  dated_full_mask :: "bool list"
  post2010_mask :: "bool list"
  bucket :: "string list"
  valid_mask :: "bool list"
  unc2k_mask :: "bool list"
  gbad_mask :: "bool list"
  captive_mask :: "bool list"
  has_media_mask :: "bool list"

text \<open>\<open>((b == k) & mask).sum()\<close>, for the Series \<open>b\<close> of buckets.\<close>

definition bucket_count :: "string list \<Rightarrow> bool list \<Rightarrow> string \<Rightarrow> nat" where
  "bucket_count bs m k = count (s_and (map (\<lambda>x. x = k) bs) m)"

text \<open>
  The counts of one frame's flags under a mask of rows (the US mask, or the US rows of
  one species): what lines 204 to 216 add to a dictionary and what lines 363 to 373 and
  384 to 396 store.
\<close>

definition flag_counts :: "flags \<Rightarrow> bool list \<Rightarrow> nat \<Rightarrow> counters" where
  "flag_counts fl us n =
     \<lparr>total_records = n,
      usa_records = count us,
      dated_any = count (s_and (dated_any_mask fl) us),
      dated_full = count (s_and (dated_full_mask fl) us),
      post_2010 = count (s_and (post2010_mask fl) us),
      basis_counts = fold (\<lambda>k d. d(k := bucket_count (bucket fl) us k)) BASIS_KEYS (\<lambda>k. 0),
      captive_flagged = count (s_and (captive_mask fl) us),
      valid_coords = count (s_and (valid_mask fl) us),
      uncertainty_le_2km = count (s_and (unc2k_mask fl) us),
      gbif_issue_flagged = count (s_and (gbad_mask fl) us),
      has_media = count (s_and (has_media_mask fl) us)\<rparr>"

text \<open>\<open>d[key] += ...\<close> for every key of a dictionary, the nested one included.\<close>

definition add_counters :: "counters \<Rightarrow> counters \<Rightarrow> counters" where
  "add_counters c x =
     \<lparr>total_records = total_records c + total_records x,
      usa_records = usa_records c + usa_records x,
      dated_any = dated_any c + dated_any x,
      dated_full = dated_full c + dated_full x,
      post_2010 = post_2010 c + post_2010 x,
      basis_counts = fold (\<lambda>k d. d(k := d k + basis_counts x k)) BASIS_KEYS (basis_counts c),
      captive_flagged = captive_flagged c + captive_flagged x,
      valid_coords = valid_coords c + valid_coords x,
      uncertainty_le_2km = uncertainty_le_2km c + uncertainty_le_2km x,
      gbif_issue_flagged = gbif_issue_flagged c + gbif_issue_flagged x,
      has_media = has_media c + has_media x\<rparr>"

subsection \<open>The streaming path: \<open>scan_tabular_files\<close>\<close>

datatype error = AttributeError | ValueError | IndexError | OSError

text \<open>The seventeen columns \<open>scan_tabular_files\<close> asks a chunk for with \<open>chunk.get\<close>.\<close>

definition STREAM_COLUMNS :: "string list" where
  "STREAM_COLUMNS = [''countryCode'', ''country'', ''decimalLatitude'', ''decimalLongitude'',
     ''eventDate'', ''year'', ''month'', ''day'', ''basisOfRecord'', ''establishmentMeans'',
     ''issues'', ''mediaType'', ''associatedMedia'', ''occurrenceRemarks'', ''locality'',
     ''habitat'', ''coordinateUncertaintyInMeters'']"

text \<open>
  Lines 159 to 202, for a chunk that has all the columns. The text columns come from
  \<open>chunk.get\<close>, the numeric ones through \<open>pd.to_numeric\<close>.
\<close>

definition stream_flags :: "pandas \<Rightarrow> frame \<Rightarrow> flags" where
  "stream_flags pd chunk =
     (let cc = column chunk ''countryCode''; cn = column chunk ''country'';
          lat = numeric pd (column chunk ''decimalLatitude'');
          lon = numeric pd (column chunk ''decimalLongitude'');
          ev = column chunk ''eventDate'';
          year = numeric pd (column chunk ''year'');
          month = numeric pd (column chunk ''month'');
          day = numeric pd (column chunk ''day'');
          basis = column chunk ''basisOfRecord'';
          estm = column chunk ''establishmentMeans'';
          issues = column chunk ''issues'';
          mediaType = column chunk ''mediaType'';
          assocMed = column chunk ''associatedMedia'';
          remarks = column chunk ''occurrenceRemarks'';
          locality = column chunk ''locality'';
          habitat = column chunk ''habitat'';
          unc = numeric pd (column chunk ''coordinateUncertaintyInMeters'');
          dated_any = s_or (map (\<lambda>v. strip v \<noteq> []) (fillna [] ev)) (notna_num year);
          full_from_ev = notna (datetime pd ev);
          full_from_parts = s_and (s_and (notna_num year) (notna_num month)) (notna_num day);
          ev_parsed = datetime pd ev
      in \<lparr>us_mask = s_or (s_or (isin US_COUNTRY_TOKENS cc) (isin US_COUNTRY_TOKENS cn))
                        (s_and (between 18 72 lat) (between (- 179.5) (- 66) lon)),
          dated_any_mask = dated_any,
          dated_full_mask = s_or full_from_ev full_from_parts,
          post2010_mask = s_or (since_2010 ev_parsed) (map (\<lambda>y. ge_c y 2010) year),
          bucket = basis_series basis,
          valid_mask = valid_series lat lon,
          unc2k_mask = unc2k_series unc,
          gbad_mask = gbad_series issues,
          captive_mask = captive_series estm remarks locality habitat,
          has_media_mask = s_or (nonempty mediaType) (nonempty assocMed)\<rparr>)"

text \<open>
  One pass of the loop body over a chunk. \<open>chunk.get(name)\<close> is \<open>None\<close> for a column the
  chunk does not have (and \<open>pd.to_numeric(None)\<close> is a bare float), and the body calls
  a Series method on each of the seventeen results: a chunk without one of the columns
  raises \<open>AttributeError\<close>. Otherwise the same counts are added to \<open>sp\<close> and to
  \<open>overall\<close>.
\<close>

definition scan_chunk :: "pandas \<Rightarrow> frame \<Rightarrow> counters \<times> counters \<Rightarrow> error + counters \<times> counters" where
  "scan_chunk pd chunk st =
     (case st of (sp, overall) \<Rightarrow>
        if list_all (has_column chunk) STREAM_COLUMNS
        then (let fl = stream_flags pd chunk;
                  x = flag_counts fl (us_mask fl) (length (rows chunk))
              in Inr (add_counters sp x, add_counters overall x))
        else Inl AttributeError)"

fun scan_chunks :: "pandas \<Rightarrow> frame list \<Rightarrow> counters \<times> counters \<Rightarrow> error + counters \<times> counters" where
  "scan_chunks pd [] st = Inr st"
| "scan_chunks pd (chunk # chunks) st =
     (case scan_chunk pd chunk st of Inl e \<Rightarrow> Inl e | Inr st' \<Rightarrow> scan_chunks pd chunks st')"

text \<open>
  A file under the occurrence directory, as the operating system and the readers
  present it: its name; the outcome of each line for the line-delimited reader (blank,
  rejected by \<open>json.loads\<close> or \<open>json_normalize\<close>, or a one-row frame); the chunks
  \<open>pd.read_csv\<close> yields; and the exception, if any, that opening or reading the file
  ends with (a file that cannot be opened yields nothing and fails).
\<close>

datatype line = Blank | Malformed | Record frame

record source_file =
  file_name :: string
  lines :: "line list"
  table :: "frame list"
  failure :: "error option"

text \<open>
  \<open>read_table\<close>: the frames the generator yields and how it ends. A blank or malformed
  line of a line-delimited file is skipped.
\<close>

definition read_table :: "source_file \<Rightarrow> frame list \<times> error option" where
  "read_table path =
     (let name = lower (file_name path) in
      if endswith name ''.ndjson'' \<or> endswith name ''.ndjson.gz''
      then (concat (map (\<lambda>l. case l of Record fr \<Rightarrow> [fr] | _ \<Rightarrow> []) (lines path)), failure path)
      else (table path, failure path))"

text \<open>
  \<open>sp = {k: (v.copy() if isinstance(v, dict) else 0) for k, v in overall.items()}\<close>: the
  scalar counters start at zero, the nested dictionary is a copy of the one \<open>overall\<close>
  holds at that moment.
\<close>

definition new_species :: "counters \<Rightarrow> counters" where
  "new_species overall = zero_counters\<lparr>basis_counts := basis_counts overall\<rparr>"

text \<open>
  One pass of the loop over files (lines 154 to 228). Nothing catches an exception of
  the reader or of the chunk body: it leaves \<open>scan_tabular_files\<close>.
\<close>

definition scan_file :: "pandas \<Rightarrow> source_file \<Rightarrow> species_row list \<times> counters \<Rightarrow> error + species_row list \<times> counters" where
  "scan_file pd f st =
     (case st of (species_rows, overall) \<Rightarrow>
      case read_table f of (chunks, fail) \<Rightarrow>
      case scan_chunks pd chunks (new_species overall, overall) of
        Inl e \<Rightarrow> Inl e
      | Inr (sp, overall') \<Rightarrow>
          (case fail of
             Some e \<Rightarrow> Inl e
           | None \<Rightarrow> Inr (species_rows @ [finalize (rx_remove TABULAR_EXT (file_name f)) sp], overall')))"

fun scan_files :: "pandas \<Rightarrow> source_file list \<Rightarrow> species_row list \<times> counters \<Rightarrow> error + species_row list \<times> counters" where
  "scan_files pd [] st = Inr st"
| "scan_files pd (f # fs) st =
     (case scan_file pd f st of Inl e \<Rightarrow> Inl e | Inr st' \<Rightarrow> scan_files pd fs st')"

text \<open>
  What a scan returns to \<open>main\<close>: \<open>scan_tabular_files\<close> returns the bare list \<open>[]\<close> when
  the directory is missing and a pair otherwise; \<open>scan_excel_combined\<close> returns the pair
  \<open>([], None)\<close> when there is no workbook.
\<close>

datatype returned = Empty_list | Tuple "species_row list" "counters option"

text \<open>
  \<open>scan_tabular_files\<close>. The occurrence directory is \<open>None\<close> when it does not exist;
  otherwise it is its regular files, in the order \<open>sorted\<close> gives them.
\<close>

definition scan_tabular_files :: "pandas \<Rightarrow> source_file list option \<Rightarrow> error + returned" where
  "scan_tabular_files pd occ_dir =
     (case occ_dir of
        None \<Rightarrow> Inr Empty_list
      | Some found \<Rightarrow>
          (let files = filter (\<lambda>f. rx_found TABULAR_EXT (file_name f)) found in
           case scan_files pd files ([], zero_counters) of
             Inl e \<Rightarrow> Inl e
           | Inr (species_rows, overall) \<Rightarrow> Inr (Tuple species_rows (Some overall))))"

subsection \<open>The combined-workbook path: \<open>scan_excel_combined\<close>\<close>

text \<open>
  A workbook of \<open>OCC_DIR.glob("*.xlsx")\<close>: its file name and the sheet \<open>pd.read_excel\<close>
  reads from it (\<open>None\<close> when \<open>pd.read_excel\<close> raises).
\<close>

record workbook =
  wb_name :: string
  sheet :: "frame option"

text \<open>\<open>score_excel\<close>: the score of the header and the number of columns.\<close>

definition score_excel :: "workbook \<Rightarrow> int \<times> nat" where
  "score_excel path =
     (case sheet path of
        None \<Rightarrow> (- 1, 0)
      | Some hdr \<Rightarrow>
          (let cols = header hdr;
               score = 5 * int (length (filter (\<lambda>k. k \<in> set cols) DATE_PRIORITIES))
                     + int (length (filter (rx_found DATE_REGEX) cols))
                     + 2 * int (length (filter (\<lambda>k. \<exists>c \<in> set cols. lower c = k)
                                          [''year'', ''month'', ''day'']))
           in (score, length cols)))"

text \<open>
  \<open>sorted(..., key=lambda x: x[0], reverse=True)\<close>: the keys are the pairs
  \<open>(score, len(cols))\<close>, compared as tuples; the sort is stable, so candidates with equal
  keys keep the order of \<open>excel_paths\<close>.
\<close>

definition key_le :: "int \<times> nat \<Rightarrow> int \<times> nat \<Rightarrow> bool" where
  "key_le x y = (fst x < fst y \<or> (fst x = fst y \<and> snd x \<le> snd y))"

fun insert_ranked :: "(int \<times> nat) \<times> 'a \<Rightarrow> ((int \<times> nat) \<times> 'a) list \<Rightarrow> ((int \<times> nat) \<times> 'a) list" where
  "insert_ranked x [] = [x]"
| "insert_ranked x (y # ys) =
     (if key_le (fst y) (fst x) then x # y # ys else y # insert_ranked x ys)"

definition sorted_reverse :: "((int \<times> nat) \<times> 'a) list \<Rightarrow> ((int \<times> nat) \<times> 'a) list" where
  "sorted_reverse xs = foldr insert_ranked xs []"

text \<open>
  Lines 256 to 260: the first of the ranking, unless its name ends in \<open>_clean.xlsx\<close> and
  the key of the second is not smaller. The caller has checked that \<open>excel_paths\<close> is not
  empty.
\<close>

definition select_workbook :: "workbook list \<Rightarrow> workbook option" where
  "select_workbook excel_paths =
     (case sorted_reverse (map (\<lambda>p. (score_excel p, p)) excel_paths) of
        [] \<Rightarrow> None
      | [r0] \<Rightarrow> Some (snd r0)
      | r0 # r1 # _ \<Rightarrow>
          if endswith (wb_name (snd r0)) ''_clean.xlsx'' \<and> key_le (fst r0) (fst r1)
          then Some (snd r1) else Some (snd r0))"

text \<open>
  \<open>col = {c.lower(): c for c in df.columns}\<close>: of two headers with the same lower-case
  form the later one stays.
\<close>

definition col :: "frame \<Rightarrow> string \<Rightarrow> string option" where
  "col df key =
     (case filter (\<lambda>c. lower c = key) (header df) of [] \<Rightarrow> None | cs \<Rightarrow> Some (last cs))"

text \<open>\<open>getcol(*names)\<close>: the column of the first alias the sheet has, else a column of \<open>None\<close>.\<close>

fun getcol :: "frame \<Rightarrow> string list \<Rightarrow> cell list" where
  "getcol df [] = replicate (length (rows df)) None"
| "getcol df (n # names) =
     (case col df (lower n) of Some c \<Rightarrow> column df c | None \<Rightarrow> getcol df names)"

text \<open>\<open>.str.replace(r"\s+", "_", regex=True)\<close>.\<close>

function collapse_ws :: "string \<Rightarrow> string" where
  "collapse_ws [] = []"
| "collapse_ws (c # cs) =
     (if is_space c then CHR ''_'' # collapse_ws (dropWhile is_space cs) else c # collapse_ws cs)"
  by pat_completeness auto
termination
  by (relation "measure length") (auto simp: less_Suc_eq_le length_dropWhile_le)

text \<open>Lines 305 to 311: the candidate date columns, the ranked names first.\<close>

definition date_candidates :: "frame \<Rightarrow> string list" where
  "date_candidates df =
     fold (\<lambda>c cand. if c \<notin> set cand \<and> rx_found DATE_REGEX c then cand @ [c] else cand)
       (header df) (filter (\<lambda>k. k \<in> set (header df)) DATE_PRIORITIES)"

text \<open>
  \<open>base + pd.to_timedelta(num.where(serial_ok), unit='D')\<close> on one value, with
  \<open>base = pd.Timestamp('1899-12-30', tz='UTC')\<close> and \<open>serial_ok = num.between(50, 60000)\<close>.
\<close>

definition serial_dt :: "fnum \<Rightarrow> instant option" where
  "serial_dt x =
     (if between_c 50 60000 x
      then (case x of Fin r \<Rightarrow> Some (timestamp 1899 12 30 + r) | _ \<Rightarrow> None)
      else None)"

text \<open>
  Lines 318 to 330 for one candidate column \<open>s\<close>: the textual parse, then the start of a
  range, then the serial number. (\<open>str.split('/', 1)\<close> has its pandas 1 meaning, at most
  one split.)
\<close>

definition parse_column :: "pandas \<Rightarrow> cell list \<Rightarrow> instant option list" where
  "parse_column pd s =
     (let parsed = datetime pd s;
          needs_range = s_and (map (\<lambda>t. t = None) parsed) (map (\<lambda>v. contains v ''/'') (fillna [] s));
          parsed = (if list_ex (\<lambda>x. x) needs_range
                    then fill_from parsed (map (\<lambda>v. to_datetime pd (before_slash v)) (fillna [] s))
                    else parsed);
          num = numeric pd s
      in fill_from parsed (map serial_dt num))"

text \<open>The loop of lines 317 to 333 over the candidates, with its early exit.\<close>

fun fill_dates :: "pandas \<Rightarrow> frame \<Rightarrow> string list \<Rightarrow> instant option list \<Rightarrow> instant option list" where
  "fill_dates pd df [] dt = dt"
| "fill_dates pd df (c # cand) dt =
     (let dt' = fill_from dt (parse_column pd (column df c)) in
      if list_all (\<lambda>t. t \<noteq> None) dt' then dt' else fill_dates pd df cand dt')"

definition TEXT_COLUMNS :: "string list" where
  "TEXT_COLUMNS = [''voucher'', ''flag_detailed'', ''issue'', ''issues'', ''locality'',
     ''Remarks'', ''remarks'']"

text \<open>\<open>astype(str)\<close> of a cell: a missing cell becomes the text \<open>nan\<close>.\<close>

definition astype_str :: "cell \<Rightarrow> string" where
  "astype_str c = (case c of None \<Rightarrow> ''nan'' | Some v \<Rightarrow> v)"

fun join_space :: "string list \<Rightarrow> string" where
  "join_space [] = []"
| "join_space [x] = x"
| "join_space (x # xs) = x @ '' '' @ join_space xs"

text \<open>The value of a string of decimal digits.\<close>

definition int_of_digits :: "string \<Rightarrow> int" where
  "int_of_digits s = foldl (\<lambda>n c. 10 * n + (int (of_char c) - 48)) 0 s"

text \<open>\<open>pd.to_datetime(years, format='%Y', utc=True)\<close> on an extracted year: its first of January.\<close>

definition year_dt :: "string option \<Rightarrow> instant option" where
  "year_dt y = map_option (\<lambda>digits. timestamp (int_of_digits digits) 1 1) y"

text \<open>Lines 335 to 347: dates sniffed from the free-text columns, for rows still undated.\<close>

definition sniff_dates :: "pandas \<Rightarrow> frame \<Rightarrow> instant option list \<Rightarrow> instant option list" where
  "sniff_dates pd df dt =
     (if list_ex (\<lambda>t. t = None) dt
      then (let text_cols = filter (\<lambda>name. name \<in> set (header df)) TEXT_COLUMNS in
            if text_cols \<noteq> []
            then (let txt = map (\<lambda>r. join_space (map (\<lambda>name. astype_str (r name)) text_cols)) (rows df);
                      parsed_txt = map (to_datetime pd) txt;
                      years = map (rx_extract YEAR_EXTRACT) txt
                  in fill_from (fill_from dt parsed_txt) (map year_dt years))
            else dt)
      else dt)"

text \<open>Lines 314 to 347: the resolved date of every row.\<close>

definition resolve_dates :: "pandas \<Rightarrow> frame \<Rightarrow> instant option list" where
  "resolve_dates pd df =
     sniff_dates pd df (fill_dates pd df (date_candidates df) (replicate (length (rows df)) None))"

text \<open>Lines 275 to 302 and 349 to 360: the flags of the sheet.\<close>

definition excel_flags :: "pandas \<Rightarrow> frame \<Rightarrow> flags" where
  "excel_flags pd df =
     (let country = getcol df [''country'', ''countryCode''];
          lat = numeric pd (getcol df [''decimalLatitude'', ''latitude'']);
          lon = numeric pd (getcol df [''decimalLongitude'', ''longitude'']);
          year = numeric pd (getcol df [''year'']);
          month = numeric pd (getcol df [''month'']);
          day = numeric pd (getcol df [''day'']);
          basis = getcol df [''basisOfRecord'', ''source'', ''Source'', ''datasetName'', ''Dataset''];
          estm = getcol df [''establishmentMeans''];
          issues = getcol df [''issues'', ''issue''];
          mediaType = getcol df [''mediaType'', ''associatedMedia''];
          remarks = getcol df [''occurrenceRemarks'', ''remarks'', ''Remarks''];
          locality = getcol df [''locality'', ''Locality''];
          habitat = getcol df [''habitat'', ''Habitat''];
          unc = numeric pd (getcol df [''coordinateUncertaintyInMeters'', ''accuracy_m'']);
          dt = resolve_dates pd df;
          full_from_parts = s_and (s_and (notna_num year) (notna_num month)) (notna_num day)
      in \<lparr>us_mask = s_or (isin US_COUNTRY_TOKENS country)
                        (s_and (between 18 72 lat) (between (- 179.5) (- 66) lon)),
          dated_any_mask = s_or (notna dt) (notna_num year),
          dated_full_mask = s_or (notna dt) full_from_parts,
          post2010_mask = s_or (since_2010 dt) (map (\<lambda>y. ge_c y 2010) year),
          bucket = basis_series basis,
          valid_mask = valid_series lat lon,
          unc2k_mask = unc2k_series unc,
          gbad_mask = gbad_series issues,
          captive_mask = captive_series estm remarks locality habitat,
          has_media_mask = nonempty mediaType\<rparr>)"

text \<open>Lines 273 and 274: the species identifier of every row.\<close>

definition species_ids :: "frame \<Rightarrow> string list" where
  "species_ids df =
     map (\<lambda>v. collapse_ws (strip v))
       (fillna [] (getcol df [''final_species'', ''taxonomy_updated_species'', ''scientific_name'',
          ''ScientificName'', ''species'', ''Species'']))"

text \<open>
  Lines 376 to 405: one row per group of \<open>groupby('species_id')\<close>, the groups in the
  sorted order of their keys; \<open>i\<close> marks the rows of the group.
\<close>

definition species_rows_of :: "flags \<Rightarrow> string list \<Rightarrow> species_row list" where
  "species_rows_of fl ids =
     map (\<lambda>sid. let i = map (\<lambda>x. x = sid) ids; us = s_and (us_mask fl) i
                in finalize sid (flag_counts fl us (count i)))
       (sort (remdups ids))"

text \<open>
  \<open>scan_excel_combined\<close>. Reading the selected workbook in full raises when
  \<open>pd.read_excel\<close> does.
\<close>

definition scan_excel_combined :: "pandas \<Rightarrow> workbook list \<Rightarrow> error + returned" where
  "scan_excel_combined pd excel_paths =
     (if excel_paths = [] then Inr (Tuple [] None)
      else (case select_workbook excel_paths of
              None \<Rightarrow> Inl IndexError
            | Some p \<Rightarrow>
                (case sheet p of
                   None \<Rightarrow> Inl OSError
                 | Some df \<Rightarrow>
                     (let fl = excel_flags pd df;
                          overall = flag_counts fl (us_mask fl) (length (rows df))
                      in Inr (Tuple (species_rows_of fl (species_ids df)) (Some overall))))))"

subsection \<open>\<open>main\<close>\<close>

text \<open>
  What the run sees of the file system: the files under the occurrence directory
  (\<open>None\<close> when the directory does not exist) and the workbooks directly in it.
\<close>

record environment =
  occ_dir :: "source_file list option"
  workbooks :: "workbook list"

text \<open>
  How a run that raises nothing ends: with the message that there is nothing to scan, or
  with the species table and the overall summary handed to the writers.
\<close>

datatype outcome = No_files_found | Wrote "species_row list" "counters option"

text \<open>\<open>rows, overall = ...\<close>: unpacking the empty list into two names raises \<open>ValueError\<close>.\<close>

definition unpack :: "returned \<Rightarrow> error + species_row list \<times> counters option" where
  "unpack r = (case r of Empty_list \<Rightarrow> Inl ValueError | Tuple srows overall \<Rightarrow> Inr (srows, overall))"

definition main :: "pandas \<Rightarrow> environment \<Rightarrow> error + outcome" where
  "main pd env =
     (case scan_tabular_files pd (occ_dir env) of
        Inl e \<Rightarrow> Inl e
      | Inr r \<Rightarrow>
          (case unpack r of
             Inl e \<Rightarrow> Inl e
           | Inr (srows, overall) \<Rightarrow>
               if srows = []
               then (case scan_excel_combined pd (workbooks env) of
                       Inl e \<Rightarrow> Inl e
                     | Inr r' \<Rightarrow>
                         (case unpack r' of
                            Inl e \<Rightarrow> Inl e
                          | Inr (srows', None) \<Rightarrow> Inr No_files_found
                          | Inr (srows', Some overall') \<Rightarrow> Inr (Wrote srows' (Some overall'))))
               else Inr (Wrote srows overall)))"

subsection \<open>Sample parsers\<close>

text \<open>
  Two concrete parsers for evaluating the scans on sample inputs. They accept a small
  part of what pandas accepts and agree with pandas there: a calendar date written
  \<open>YYYY-MM-DD\<close> or a bare year \<open>YYYY\<close> (inside the range of a nanosecond timestamp),
  and a decimal numeral with an optional sign and fraction. Every other text is NaT and
  NaN for them; the samples below only use such texts where pandas rejects them too.
\<close>

definition days_in_month :: "int \<Rightarrow> int \<Rightarrow> int" where
  "days_in_month y m =
     (if m = 2 then (if y mod 4 = 0 \<and> (y mod 100 \<noteq> 0 \<or> y mod 400 = 0) then 29 else 28)
      else if m = 4 \<or> m = 6 \<or> m = 9 \<or> m = 11 then 30 else 31)"

definition iso_to_datetime :: "string \<Rightarrow> instant option" where
  "iso_to_datetime s =
     (if length s = 10 \<and> list_all is_digit (take 4 s) \<and> s ! 4 = CHR ''-''
         \<and> list_all is_digit (take 2 (drop 5 s)) \<and> s ! 7 = CHR ''-''
         \<and> list_all is_digit (drop 8 s)
      then (let y = int_of_digits (take 4 s); m = int_of_digits (take 2 (drop 5 s));
                d = int_of_digits (drop 8 s)
            in if 1678 \<le> y \<and> y \<le> 2261 \<and> 1 \<le> m \<and> m \<le> 12 \<and> 1 \<le> d \<and> d \<le> days_in_month y m
               then Some (timestamp y m d) else None)
      else if length s = 4 \<and> list_all is_digit s \<and> 1678 \<le> int_of_digits s \<and> int_of_digits s \<le> 2261
      then Some (timestamp (int_of_digits s) 1 1)
      else None)"

definition dec_to_numeric :: "string \<Rightarrow> fnum" where
  "dec_to_numeric s =
     (let neg = (s \<noteq> [] \<and> hd s = CHR ''-'');
          body = (if neg then tl s else s);
          ip = takeWhile is_digit body;
          rest = dropWhile is_digit body;
          sgn = (if neg then - 1 else 1 :: real)
      in if ip = [] then NaN
         else if rest = [] then Fin (sgn * of_int (int_of_digits ip))
         else if hd rest = CHR ''.'' \<and> list_all is_digit (tl rest)
         then Fin (sgn * (of_int (int_of_digits ip)
                          + of_int (int_of_digits (tl rest)) / 10 ^ length (tl rest)))
         else NaN)"

definition sample_pandas :: pandas where
  "sample_pandas = \<lparr>to_datetime = iso_to_datetime, to_numeric = dec_to_numeric\<rparr>"

text \<open>A row from the cells it has; every other cell is missing.\<close>

definition row_of :: "(string \<times> string) list \<Rightarrow> string \<Rightarrow> cell" where
  "row_of cells = map_of cells"

subsection \<open>Notions for the properties\<close>

text \<open>No counter of US records exceeds the number of US records.\<close>

definition within_usa :: "counters \<Rightarrow> bool" where
  "within_usa c = (dated_any c \<le> usa_records c \<and> dated_full c \<le> usa_records c
     \<and> post_2010 c \<le> usa_records c \<and> uncertainty_le_2km c \<le> usa_records c
     \<and> captive_flagged c \<le> usa_records c)"

text \<open>The cell of one row that \<open>getcol\<close> resolves a list of aliases to.\<close>

fun getcell :: "frame \<Rightarrow> string list \<Rightarrow> (string \<Rightarrow> cell) \<Rightarrow> cell" where
  "getcell df [] r = None"
| "getcell df (n # names) r =
     (case col df (lower n) of Some c \<Rightarrow> r c | None \<Rightarrow> getcell df names r)"

text \<open>A ranking in descending order of the keys.\<close>

abbreviation ranked_desc :: "((int \<times> nat) \<times> 'a) list \<Rightarrow> bool" where
  "ranked_desc xs \<equiv> sorted_wrt (\<lambda>a b. key_le (fst b) (fst a)) xs"


subsection \<open>Sample inputs\<close>

text \<open>A chunk with every column of the streaming path and one record of country \<open>US\<close>.\<close>

definition us_chunk :: frame where
  "us_chunk = \<lparr>header = STREAM_COLUMNS, rows = [row_of [(''country'', ''US'')]]\<rparr>"

definition file_a :: source_file where
  "file_a = \<lparr>file_name = ''a.csv'', lines = [], table = [us_chunk], failure = None\<rparr>"

definition file_b :: source_file where
  "file_b = \<lparr>file_name = ''b.csv'', lines = [], table = [us_chunk], failure = None\<rparr>"

text \<open>The same chunk read from a file whose header has no \<open>countryCode\<close> column.\<close>

definition chunk_without_country_code :: frame where
  "chunk_without_country_code =
     \<lparr>header = remove1 ''countryCode'' STREAM_COLUMNS, rows = [row_of [(''country'', ''US'')]]\<rparr>"


text \<open>A file of three US records, one of them with a year.\<close>

definition thirds_chunk :: frame where
  "thirds_chunk = \<lparr>header = STREAM_COLUMNS,
     rows = [row_of [(''country'', ''US''), (''year'', ''2015'')],
             row_of [(''country'', ''US'')],
             row_of [(''country'', ''US'')]]\<rparr>"

definition file_thirds :: source_file where
  "file_thirds = \<lparr>file_name = ''Crotalus_atrox.csv'', lines = [], table = [thirds_chunk], failure = None\<rparr>"

text \<open>
  Three records under the seventeen column names: country \<open>US\<close> and no coordinates; no
  country and the coordinates (40.0, -75.0); no country and the coordinates (40.0, 10.0).
\<close>

definition us_examples :: frame where
  "us_examples = \<lparr>header = STREAM_COLUMNS,
     rows = [row_of [(''country'', ''US'')],
             row_of [(''decimalLatitude'', ''40.0''), (''decimalLongitude'', ''-75.0'')],
             row_of [(''decimalLatitude'', ''40.0''), (''decimalLongitude'', ''10.0'')]]\<rparr>"

text \<open>A record whose country code is \<open>US\<close> and whose country name is not one of the tokens.\<close>

definition code_only_frame :: frame where
  "code_only_frame = \<lparr>header = STREAM_COLUMNS,
     rows = [row_of [(''countryCode'', ''US''), (''country'', ''U.S.'')]]\<rparr>"

text \<open>A sheet whose only date column holds the serial number 42370.\<close>

definition serial_sheet :: frame where
  "serial_sheet = \<lparr>header = [''species'', ''eventDate''],
     rows = [row_of [(''species'', ''Crotalus atrox''), (''eventDate'', ''42370'')]]\<rparr>"

text \<open>The same record as a chunk of the streaming path.\<close>

definition serial_chunk :: frame where
  "serial_chunk = \<lparr>header = STREAM_COLUMNS,
     rows = [row_of [(''country'', ''US''), (''eventDate'', ''42370'')]]\<rparr>"

text \<open>A sheet with no date column and no year column, and a year in its remarks.\<close>

definition sniff_sheet :: frame where
  "sniff_sheet = \<lparr>header = [''species'', ''remarks''],
     rows = [row_of [(''species'', ''Crotalus atrox''), (''remarks'', ''collected 1987'')]]\<rparr>"

text \<open>A record whose only date information is its year field, as a chunk and as a sheet.\<close>

definition year_only_chunk :: frame where
  "year_only_chunk = \<lparr>header = STREAM_COLUMNS,
     rows = [row_of [(''country'', ''US''), (''year'', ''2015'')]]\<rparr>"

definition year_only_sheet :: frame where
  "year_only_sheet = \<lparr>header = [''year''], rows = [row_of [(''year'', ''2015'')]]\<rparr>"

text \<open>
  Three workbooks with the same score: a raw one and a cleaned one with the same
  header, and a cleaned one with one more column.
\<close>

definition wb_raw :: workbook where
  "wb_raw = \<lparr>wb_name = ''records.xlsx'', sheet = Some \<lparr>header = [''eventDate''], rows = []\<rparr>\<rparr>"

definition wb_clean :: workbook where
  "wb_clean = \<lparr>wb_name = ''records_clean.xlsx'', sheet = Some \<lparr>header = [''eventDate''], rows = []\<rparr>\<rparr>"

definition wb_clean_v2 :: workbook where
  "wb_clean_v2 = \<lparr>wb_name = ''records_v2_clean.xlsx'',
     sheet = Some \<lparr>header = [''eventDate''], rows = []\<rparr>\<rparr>"

definition wb_wide_clean :: workbook where
  "wb_wide_clean = \<lparr>wb_name = ''records_clean.xlsx'',
     sheet = Some \<lparr>header = [''eventDate'', ''notes''], rows = []\<rparr>\<rparr>"


section \<open>Properties\<close>

subsection \<open>Buckets\<close>

lemma basis_bucket_in_keys: "basis_bucket v \<in> set BASIS_KEYS"
  unfolding basis_bucket_def BASIS_KEYS_def Let_def by (simp only: split: if_splits) auto

lemma distinct_BASIS_KEYS: "distinct BASIS_KEYS"
  by (simp add: BASIS_KEYS_def)

subsection \<open>The missing occurrence directory\<close>

text \<open>
  Claim C4 (code defect). With no occurrence directory, \<open>scan_tabular_files\<close> prints its
  message and returns the bare list \<open>[]\<close>; \<open>main\<close> unpacks it into two names and raises
  \<open>ValueError\<close>, whatever the parsers and the workbooks are, instead of reporting that
  there is nothing to scan.
\<close>

theorem main_missing_directory_raises:
  "main pd \<lparr>occ_dir = None, workbooks = wbs\<rparr> = Inl ValueError"
  by (simp add: main_def scan_tabular_files_def unpack_def)

text \<open>An existing directory with no input does end with the message.\<close>

lemma main_empty_directory:
  "main pd \<lparr>occ_dir = Some [], workbooks = []\<rparr> = Inr No_files_found"
  by (simp add: main_def scan_tabular_files_def scan_excel_combined_def unpack_def)

subsection \<open>A chunk without one of the columns\<close>

text \<open>
  Claim C2 (code defect). In the streaming path a chunk that lacks one of the seventeen
  columns does not count as all-missing there: the chunk body raises \<open>AttributeError\<close>.
\<close>

theorem missing_column_raises:
  assumes "name \<in> set STREAM_COLUMNS" and "\<not> has_column chunk name"
  shows "scan_chunk pd chunk st = Inl AttributeError"
proof -
  from assms have "\<not> list_all (has_column chunk) STREAM_COLUMNS"
    by (auto simp: list_all_iff)
  then show ?thesis
    by (cases st) (simp add: scan_chunk_def)
qed

theorem missing_column_raises_witness:
  "scan_chunk sample_pandas chunk_without_country_code (zero_counters, zero_counters)
     = Inl AttributeError"
  using missing_column_raises [of "''countryCode''" chunk_without_country_code]
  by (simp add: STREAM_COLUMNS_def chunk_without_country_code_def has_column_def)

text \<open>The workbook path does resolve a field without a header to a column of missing cells.\<close>

lemma getcol_no_alias:
  "\<forall>n \<in> set names. col df (lower n) = None \<Longrightarrow> getcol df names = replicate (length (rows df)) None"
  by (induction names) auto

subsection \<open>Counting\<close>

lemma map2_same: "map2 f (map g xs) (map h xs) = map (\<lambda>x. f (g x) (h x)) xs"
  by (induction xs) auto

lemma count_Nil: "count [] = 0" by (simp add: count_def)
lemma count_Cons: "count (x # xs) = (if x then 1 else 0) + count xs" by (simp add: count_def)

lemma count_s_and_le: "count (s_and m us) \<le> count us"
proof (induction us arbitrary: m)
  case Nil then show ?case by (simp add: s_and_def count_def)
next
  case (Cons u us)
  then show ?case
    by (cases m) (auto simp: s_and_def count_def le_SucI)
qed

lemma fold_upd_distinct:
  "distinct ks \<Longrightarrow> fold (\<lambda>k d. d(k := g (d k) k)) ks d = (\<lambda>k. if k \<in> set ks then g (d k) k else d k)"
proof (induction ks arbitrary: d)
  case Nil then show ?case by simp
next
  case (Cons a ks)
  then show ?case by (auto simp: fun_eq_iff)
qed

lemma sum_bucket_one:
  assumes "distinct ks" "x \<in> set ks"
  shows "sum_list (map (\<lambda>k. if x = k \<and> u then 1 else 0 :: nat) ks) = (if u then 1 else 0)"
  using assms by (induction ks) (auto simp: sum_list_0)

lemma bucket_counts_sum:
  assumes "distinct ks" "length bs = length us" "set bs \<subseteq> set ks"
  shows "sum_list (map (bucket_count bs us) ks) = count us"
  using assms(2,3)
proof (induction bs us rule: list_induct2)
  case Nil
  then show ?case by (simp add: bucket_count_def s_and_def count_def)
next
  case (Cons x xs u us)
  have "sum_list (map (bucket_count (x # xs) (u # us)) ks)
        = sum_list (map (\<lambda>k. (if x = k \<and> u then 1 else 0) + bucket_count xs us k) ks)"
    by (rule arg_cong [where f = sum_list]) (auto simp: bucket_count_def s_and_def count_def)
  also have "\<dots> = sum_list (map (\<lambda>k. if x = k \<and> u then 1 else 0 :: nat) ks) + sum_list (map (bucket_count xs us) ks)"
    by (simp add: sum_list_addf)
  also have "\<dots> = (if u then 1 else 0) + count us"
    using Cons assms(1) by (simp add: sum_bucket_one)
  finally show ?case by (simp add: count_def)
qed

lemma basis_counts_flag_counts:
  "k \<in> set BASIS_KEYS \<Longrightarrow> basis_counts (flag_counts fl us n) k = bucket_count (bucket fl) us k"
  by (simp add: flag_counts_def
        fold_upd_distinct [OF distinct_BASIS_KEYS, where g = "\<lambda>v k. bucket_count (bucket fl) us k"])

lemma basis_counts_add_counters:
  "k \<in> set BASIS_KEYS \<Longrightarrow> basis_counts (add_counters c x) k = basis_counts c k + basis_counts x k"
  by (simp add: add_counters_def
        fold_upd_distinct [OF distinct_BASIS_KEYS, where g = "\<lambda>v k. v + basis_counts x k"])

lemma basis_total_flag_counts:
  assumes "length (bucket fl) = length us" "set (bucket fl) \<subseteq> set BASIS_KEYS"
  shows "basis_total (flag_counts fl us n) = count us"
proof -
  have "map (basis_counts (flag_counts fl us n)) BASIS_KEYS = map (bucket_count (bucket fl) us) BASIS_KEYS"
    by (rule map_cong [OF refl]) (rule basis_counts_flag_counts)
  then show ?thesis
    unfolding basis_total_def
    using bucket_counts_sum [OF distinct_BASIS_KEYS assms] by (simp only:)
qed

lemma basis_total_add_counters:
  "basis_total (add_counters c x) = basis_total c + basis_total x"
proof -
  have "map (basis_counts (add_counters c x)) BASIS_KEYS
        = map (\<lambda>k. basis_counts c k + basis_counts x k) BASIS_KEYS"
    by (rule map_cong [OF refl]) (rule basis_counts_add_counters)
  then show ?thesis
    unfolding basis_total_def by (simp only: sum_list_addf)
qed

subsection \<open>The streaming path, row by row\<close>

lemmas series_defs = column_def isin_def numeric_def datetime_def between_def notna_def notna_num_def
  s_or_def s_and_def since_2010_def fillna_def nonempty_def basis_series_def valid_series_def
  unc2k_series_def gbad_series_def captive_series_def text_blob_def

lemma stream_us_mask:
  "us_mask (stream_flags pd chunk) =
     map (\<lambda>r. (case r ''countryCode'' of None \<Rightarrow> False | Some v \<Rightarrow> v \<in> set US_COUNTRY_TOKENS)
             \<or> (case r ''country'' of None \<Rightarrow> False | Some v \<Rightarrow> v \<in> set US_COUNTRY_TOKENS)
             \<or> between_c 18 72 (numeric_cell pd (r ''decimalLatitude''))
               \<and> between_c (- 179.5) (- 66) (numeric_cell pd (r ''decimalLongitude'')))
       (rows chunk)"
  by (simp add: stream_flags_def Let_def series_defs zip_map_map zip_same_conv_map o_def)

lemma stream_bucket:
  "bucket (stream_flags pd chunk) =
     map (\<lambda>r. basis_bucket (case r ''basisOfRecord'' of None \<Rightarrow> ''Other'' | Some v \<Rightarrow> v)) (rows chunk)"
  by (simp add: stream_flags_def Let_def series_defs o_def)

lemma stream_bucket_ok:
  "length (bucket (stream_flags pd chunk)) = length (us_mask (stream_flags pd chunk))"
  "set (bucket (stream_flags pd chunk)) \<subseteq> set BASIS_KEYS"
  by (auto simp: stream_us_mask stream_bucket basis_bucket_in_keys)

lemma flag_counts_simps [simp]:
  "total_records (flag_counts fl us n) = n"
  "usa_records (flag_counts fl us n) = count us"
  "dated_any (flag_counts fl us n) = count (s_and (dated_any_mask fl) us)"
  "dated_full (flag_counts fl us n) = count (s_and (dated_full_mask fl) us)"
  "post_2010 (flag_counts fl us n) = count (s_and (post2010_mask fl) us)"
  "uncertainty_le_2km (flag_counts fl us n) = count (s_and (unc2k_mask fl) us)"
  "captive_flagged (flag_counts fl us n) = count (s_and (captive_mask fl) us)"
  by (simp_all add: flag_counts_def)

lemma add_counters_simps [simp]:
  "total_records (add_counters c x) = total_records c + total_records x"
  "usa_records (add_counters c x) = usa_records c + usa_records x"
  "dated_any (add_counters c x) = dated_any c + dated_any x"
  "dated_full (add_counters c x) = dated_full c + dated_full x"
  "post_2010 (add_counters c x) = post_2010 c + post_2010 x"
  "uncertainty_le_2km (add_counters c x) = uncertainty_le_2km c + uncertainty_le_2km x"
  "captive_flagged (add_counters c x) = captive_flagged c + captive_flagged x"
  by (simp_all add: add_counters_def)

lemma new_species_simps [simp]:
  "usa_records (new_species ov) = 0"
  "dated_any (new_species ov) = 0"
  "dated_full (new_species ov) = 0"
  "post_2010 (new_species ov) = 0"
  "uncertainty_le_2km (new_species ov) = 0"
  "captive_flagged (new_species ov) = 0"
  "basis_total (new_species ov) = basis_total ov"
  by (simp_all add: new_species_def zero_counters_def basis_total_def)

lemma scan_chunk_Inr:
  assumes "scan_chunk pd chunk (sp, ov) = Inr (sp', ov')"
  shows "\<exists>x. sp' = add_counters sp x \<and> ov' = add_counters ov x
            \<and> basis_total x = usa_records x
            \<and> dated_any x \<le> usa_records x \<and> dated_full x \<le> usa_records x
            \<and> post_2010 x \<le> usa_records x \<and> uncertainty_le_2km x \<le> usa_records x
            \<and> captive_flagged x \<le> usa_records x"
proof -
  let ?fl = "stream_flags pd chunk"
  let ?x = "flag_counts ?fl (us_mask ?fl) (length (rows chunk))"
  from assms have "sp' = add_counters sp ?x" "ov' = add_counters ov ?x"
    by (auto simp: scan_chunk_def Let_def split: if_splits)
  moreover have "basis_total ?x = usa_records ?x"
    by (simp add: basis_total_flag_counts [OF stream_bucket_ok])
  ultimately show ?thesis
    by (intro exI [of _ ?x]) (simp add: count_s_and_le)
qed


lemma scan_chunk_step:
  assumes "scan_chunk pd chunk (sp, ov) = Inr (sp', ov')"
  shows "basis_total sp' + usa_records sp = basis_total sp + usa_records sp'"
    and "basis_total ov' + usa_records ov = basis_total ov + usa_records ov'"
    and "usa_records ov' + usa_records sp = usa_records ov + usa_records sp'"
    and "within_usa sp \<Longrightarrow> within_usa sp'"
  using scan_chunk_Inr [OF assms]
  by (auto simp: basis_total_add_counters within_usa_def)

lemma scan_chunks_step:
  assumes "scan_chunks pd chunks (sp, ov) = Inr (sp', ov')"
  shows "basis_total sp' + usa_records sp = basis_total sp + usa_records sp'
       \<and> basis_total ov' + usa_records ov = basis_total ov + usa_records ov'
       \<and> usa_records ov' + usa_records sp = usa_records ov + usa_records sp'
       \<and> (within_usa sp \<longrightarrow> within_usa sp')"
  using assms
proof (induction chunks arbitrary: sp ov)
  case Nil
  then show ?case by simp
next
  case (Cons chunk chunks)
  from Cons.prems obtain sp1 ov1 where
    one: "scan_chunk pd chunk (sp, ov) = Inr (sp1, ov1)"
    and rest: "scan_chunks pd chunks (sp1, ov1) = Inr (sp', ov')"
    by (auto split: sum.splits)
  from scan_chunk_step [OF one] Cons.IH [OF rest] show ?case
    by auto
qed

lemma counts_finalize [simp]: "counts (finalize sid sp) = sp"
  by (simp add: finalize_def Let_def)

lemma within_usa_new_species [simp]: "within_usa (new_species ov)"
  by (simp add: within_usa_def)

lemma scan_file_row:
  assumes "scan_file pd f (srows, ov) = Inr (srows', ov')"
  shows "\<exists>sp. srows' = srows @ [finalize (rx_remove TABULAR_EXT (file_name f)) sp]
            \<and> basis_total sp = basis_total ov + usa_records sp
            \<and> basis_total ov' = basis_total ov + usa_records sp
            \<and> usa_records ov' = usa_records ov + usa_records sp
            \<and> within_usa sp"
proof -
  obtain chunks fail where rt: "read_table f = (chunks, fail)"
    by (cases "read_table f")
  with assms obtain sp where
    sc: "scan_chunks pd chunks (new_species ov, ov) = Inr (sp, ov')"
    and rows: "srows' = srows @ [finalize (rx_remove TABULAR_EXT (file_name f)) sp]"
    by (auto simp: scan_file_def split: sum.splits option.splits)
  from scan_chunks_step [OF sc] rows show ?thesis
    by (intro exI [of _ sp]) simp
qed

lemma scan_file_one_chunk:
  assumes "read_table f = ([chunk], None)" and "list_all (has_column chunk) STREAM_COLUMNS"
  shows "scan_file pd f (srows, ov) =
     (let fl = stream_flags pd chunk; x = flag_counts fl (us_mask fl) (length (rows chunk))
      in Inr (srows @ [finalize (rx_remove TABULAR_EXT (file_name f)) (add_counters (new_species ov) x)],
              add_counters ov x))"
  using assms by (simp add: scan_file_def scan_chunk_def Let_def)

lemma sample_files_read:
  "read_table file_a = ([us_chunk], None)" "read_table file_b = ([us_chunk], None)"
  "list_all (has_column us_chunk) STREAM_COLUMNS"
  by (simp_all add: read_table_def file_a_def file_b_def endswith_def lower_def Let_def
        has_column_def us_chunk_def list_all_iff)

lemma us_chunk_usa: "count (us_mask (stream_flags pd us_chunk)) = 1"
  by (simp add: stream_us_mask us_chunk_def row_of_def US_COUNTRY_TOKENS_def count_def)

subsection \<open>The bucket counts of a species\<close>

text \<open>
  Claim C6 (code defect). In the streaming path the per-species dictionary starts with a
  copy of the bucket counts accumulated so far: the six bucket counts of a species sum to
  its US records plus the bucket total of all earlier files, not to its US records.
\<close>

theorem species_buckets_include_earlier_files:
  assumes "scan_file pd f (srows, overall) = Inr (srows', overall')"
  shows "\<exists>r. srows' = srows @ [r]
            \<and> basis_total (counts r) = basis_total overall + usa_records (counts r)
            \<and> basis_total overall' = basis_total overall + usa_records (counts r)"
  using scan_file_row [OF assms] by auto

text \<open>Two files with one US record each: the second species has 1 US record and bucket counts that sum to 2.\<close>

theorem species_buckets_include_earlier_files_witness:
  "\<exists>ra ova rb ovb.
     scan_file sample_pandas file_a ([], zero_counters) = Inr ([ra], ova)
     \<and> scan_file sample_pandas file_b ([ra], ova) = Inr ([ra, rb], ovb)
     \<and> usa_records (counts rb) = 1 \<and> basis_total (counts rb) = 2"
proof -
  obtain ra ova where a: "scan_file sample_pandas file_a ([], zero_counters) = Inr ([ra], ova)"
    by (simp add: scan_file_one_chunk [OF sample_files_read(1,3)] Let_def)
  obtain rb ovb where b: "scan_file sample_pandas file_b ([ra], ova) = Inr ([ra, rb], ovb)"
    and ub: "usa_records (counts rb) = 1"
    by (simp add: scan_file_one_chunk [OF sample_files_read(2,3)] Let_def us_chunk_usa)
  have ua: "usa_records (counts ra) = 1"
    using a by (auto simp: scan_file_one_chunk [OF sample_files_read(1,3)] Let_def us_chunk_usa)
  have z: "basis_total zero_counters = 0"
    by (simp add: basis_total_def zero_counters_def)
  from species_buckets_include_earlier_files [OF a] ua z have "basis_total ova = 1"
    by auto
  with species_buckets_include_earlier_files [OF b] ub have "basis_total (counts rb) = 2"
    by auto
  with a b ub show ?thesis by blast
qed

subsection \<open>Rounding\<close>

lemma round_half_even_bounds:
  assumes "0 \<le> y" "y \<le> of_int n"
  shows "0 \<le> round_half_even y \<and> round_half_even y \<le> n"
proof -
  have f0: "0 \<le> \<lfloor>y\<rfloor>" using assms(1) by simp
  have fn: "\<lfloor>y\<rfloor> \<le> n" using assms(2) by (simp add: floor_le_iff)
  have "1 / 2 \<le> y - of_int \<lfloor>y\<rfloor> \<Longrightarrow> \<lfloor>y\<rfloor> + 1 \<le> n"
  proof -
    assume "1 / 2 \<le> y - of_int \<lfloor>y\<rfloor>"
    then have "of_int \<lfloor>y\<rfloor> < y" by linarith
    with assms(2) have "(of_int \<lfloor>y\<rfloor> :: real) < of_int n" by linarith
    then show ?thesis by simp
  qed
  with f0 fn show ?thesis
    by (auto simp: round_half_even_def Let_def)
qed

lemma round_half_even_close: "\<bar>of_int (round_half_even y) - y\<bar> \<le> 1 / 2"
proof -
  have "of_int \<lfloor>y\<rfloor> \<le> y" "y < of_int \<lfloor>y\<rfloor> + 1" by linarith+
  then show ?thesis
    by (auto simp: round_half_even_def Let_def abs_le_iff)
qed

lemma pow2_neg: "e \<le> 0 \<Longrightarrow> pow2 e = 1 / 2 ^ nat (- e)"
  by (auto simp: pow2_def)

lemma bitlen_mono: "n \<le> d \<Longrightarrow> bitlen n \<le> bitlen d"
  by (simp add: bitlen_def floorlog_mono)

lemma binary_exponent_le_0: "n \<le> d \<Longrightarrow> binary_exponent n d \<le> 0"
  using bitlen_mono [of n d] by (auto simp: binary_exponent_def Let_def)

lemma nearest_double_zero [simp]: "nearest_double 0 d = 0"
  by (simp add: nearest_double_def)

text \<open>
  The double of a quotient between 0 and 1 lies between 0 and 1, within half a unit
  of the last place of the quotient.
\<close>

lemma nearest_double_share:
  assumes "0 \<le> n" "n \<le> d" "0 < d"
  shows "0 \<le> nearest_double n d \<and> nearest_double n d \<le> 1
         \<and> \<bar>nearest_double n d - of_int n / of_int d\<bar> \<le> 1 / 2 ^ 53"
proof (cases "n = 0")
  case True
  then show ?thesis by simp
next
  case False
  define q where "q = max (binary_exponent n d) (- 1022) - 52"
  define k where "k = nat (- q)"
  define y where "y = real_of_int n / real_of_int d * 2 ^ k"
  have q: "q \<le> - 52" using binary_exponent_le_0 [OF assms(2)] by (simp add: q_def)
  then have p: "pow2 q = 1 / 2 ^ k" by (simp add: pow2_neg k_def)
  have k: "52 \<le> k" using q by (simp add: k_def)
  have pk: "(2::real) ^ 52 \<le> 2 ^ k" using k by (intro power_increasing) simp_all
  have nd: "nearest_double n d = of_int (round_half_even y) / 2 ^ k"
    using False by (simp add: nearest_double_def Let_def q_def [symmetric] p y_def)
  have x: "0 \<le> real_of_int n / real_of_int d" "real_of_int n / real_of_int d \<le> 1"
    using assms by simp_all
  have "0 \<le> y" unfolding y_def using x(1) by (intro mult_nonneg_nonneg) simp_all
  moreover have "y \<le> of_int (2 ^ k)"
    using mult_right_mono [OF x(2), of "2 ^ k"] by (simp add: y_def)
  ultimately have r: "0 \<le> round_half_even y" "round_half_even y \<le> 2 ^ k"
    using round_half_even_bounds by blast+
  then have r': "(0::real) \<le> of_int (round_half_even y)" "(of_int (round_half_even y) :: real) \<le> 2 ^ k"
    by (simp, metis of_int_le_iff of_int_numeral of_int_power)
  have b: "0 \<le> nearest_double n d \<and> nearest_double n d \<le> 1"
    using r' by (simp add: nd divide_le_eq_1)
  have "nearest_double n d - of_int n / of_int d = (of_int (round_half_even y) - y) / 2 ^ k"
    by (simp add: nd y_def diff_divide_distrib)
  then have "\<bar>nearest_double n d - of_int n / of_int d\<bar> = \<bar>of_int (round_half_even y) - y\<bar> / 2 ^ k"
    by simp
  also have "\<dots> \<le> (1 / 2) / 2 ^ k"
    by (intro divide_right_mono round_half_even_close) simp
  also have "\<dots> \<le> (1 / 2) / 2 ^ 52"
    using pk by (intro divide_left_mono) simp_all
  finally have "\<bar>nearest_double n d - of_int n / of_int d\<bar> \<le> 1 / 2 ^ 53" by simp
  with b show ?thesis by simp
qed

lemma round4_share:
  assumes "0 \<le> x" "x \<le> 1"
  shows "0 \<le> round4 x \<and> round4 x \<le> 1 \<and> \<bar>round4 x - x\<bar> \<le> 1 / 20000 + 1 / 2 ^ 53"
proof -
  define k where "k = round_half_even (x * 10000)"
  have "0 \<le> x * 10000" "x * 10000 \<le> of_int 10000" using assms by auto
  from round_half_even_bounds [OF this] have k: "0 \<le> k" "k \<le> 10000" by (auto simp: k_def)
  from nearest_double_share [OF k(1) k(2)]
  have nd: "0 \<le> round4 x" "round4 x \<le> 1" "\<bar>round4 x - of_int k / 10000\<bar> \<le> 1 / 2 ^ 53"
    by (simp_all add: round4_def k_def)
  have "\<bar>of_int k - x * 10000\<bar> \<le> 1 / 2" unfolding k_def by (rule round_half_even_close)
  then have "\<bar>of_int k / 10000 - x\<bar> \<le> 1 / 20000" by (simp add: abs_le_iff field_simps)
  with nd(3) have "\<bar>round4 x - x\<bar> \<le> 1 / 20000 + 1 / 2 ^ 53" by linarith
  with nd show ?thesis by simp
qed

lemma round4_zero [simp]: "round4 0 = 0"
  by (simp add: round4_def round_half_even_def)

text \<open>
  Two quotients evaluated: one third gives the double of 0.3333, and 1/160, whose
  double lies above 0.00625, gives the double of 0.0063.
\<close>

lemma nearest_double_third: "nearest_double 1 3 = 6004799503160661 / 2 ^ 54"
  by (simp add: nearest_double_def binary_exponent_def compute_bitlen pow2_def round_half_even_def Let_def)

lemma round4_third: "round4 (nearest_double 1 3) = nearest_double 3333 10000"
  by (simp add: nearest_double_third round4_def round_half_even_def Let_def)

lemma nearest_double_3333: "nearest_double 3333 10000 = 6004199023210345 / 2 ^ 54"
  by (simp add: nearest_double_def binary_exponent_def compute_bitlen pow2_def round_half_even_def Let_def)

lemma round4_one_160th: "round4 (true_divide 1 160) = nearest_double 63 10000"
  by (simp add: true_divide_def round4_def nearest_double_def binary_exponent_def compute_bitlen
        pow2_def round_half_even_def Let_def)

subsection \<open>The date flags of the streaming path\<close>

lemma stream_dated_any_mask:
  "dated_any_mask (stream_flags pd chunk) =
     map (\<lambda>r. strip (case r ''eventDate'' of None \<Rightarrow> [] | Some v \<Rightarrow> v) \<noteq> []
             \<or> numeric_cell pd (r ''year'') \<noteq> NaN)
       (rows chunk)"
  by (simp add: stream_flags_def Let_def series_defs zip_map_map zip_same_conv_map o_def)

lemma stream_dated_full_mask:
  "dated_full_mask (stream_flags pd chunk) =
     map (\<lambda>r. datetime_cell pd (r ''eventDate'') \<noteq> None
             \<or> numeric_cell pd (r ''year'') \<noteq> NaN \<and> numeric_cell pd (r ''month'') \<noteq> NaN
               \<and> numeric_cell pd (r ''day'') \<noteq> NaN)
       (rows chunk)"
  by (simp add: stream_flags_def Let_def series_defs zip_map_map zip_same_conv_map o_def)

lemma stream_post2010_mask:
  "post2010_mask (stream_flags pd chunk) =
     map (\<lambda>r. (case datetime_cell pd (r ''eventDate'') of None \<Rightarrow> False | Some t \<Rightarrow> timestamp 2010 1 1 \<le> t)
             \<or> ge_c (numeric_cell pd (r ''year'')) 2010)
       (rows chunk)"
  by (simp add: stream_flags_def Let_def series_defs zip_map_map zip_map1 zip_map2 zip_same_conv_map o_def split_def)

subsection \<open>Percentages\<close>

lemma finalize_share:
  assumes "c \<le> u"
  shows "round4 (true_divide c (if u = 0 then 1 else u)) = round4 (true_divide c (max u 1))
       \<and> 0 \<le> round4 (true_divide c (max u 1)) \<and> round4 (true_divide c (max u 1)) \<le> 1
       \<and> \<bar>round4 (true_divide c (max u 1)) - real c / real (max u 1)\<bar> \<le> 1 / 20000 + 1 / 2 ^ 52
       \<and> (u = 0 \<longrightarrow> round4 (true_divide c (max u 1)) = 0)"
proof -
  have m: "(if u = 0 then 1 else u) = max u 1" by auto
  have "0 \<le> int c" "int c \<le> int (max u 1)" "0 < int (max u 1)" using assms by auto
  from nearest_double_share [OF this]
  have t: "0 \<le> true_divide c (max u 1)" "true_divide c (max u 1) \<le> 1"
    "\<bar>true_divide c (max u 1) - real c / real (max u 1)\<bar> \<le> 1 / 2 ^ 53"
    by (simp_all add: true_divide_def)
  from round4_share [OF t(1) t(2)]
  have r: "0 \<le> round4 (true_divide c (max u 1))" "round4 (true_divide c (max u 1)) \<le> 1"
    "\<bar>round4 (true_divide c (max u 1)) - true_divide c (max u 1)\<bar> \<le> 1 / 20000 + 1 / 2 ^ 53"
    by blast+
  have h: "(1::real) / 2 ^ 53 + 1 / 2 ^ 53 = 1 / 2 ^ 52" by simp
  from r(3) t(3) h
  have "\<bar>round4 (true_divide c (max u 1)) - real c / real (max u 1)\<bar> \<le> 1 / 20000 + 1 / 2 ^ 52"
    by linarith
  with r have "0 \<le> round4 (true_divide c (max u 1)) \<and> round4 (true_divide c (max u 1)) \<le> 1
       \<and> \<bar>round4 (true_divide c (max u 1)) - real c / real (max u 1)\<bar> \<le> 1 / 20000 + 1 / 2 ^ 52"
    by blast
  moreover have "u = 0 \<longrightarrow> round4 (true_divide c (max u 1)) = 0"
    using assms by (auto simp: true_divide_def)
  ultimately show ?thesis by (simp add: m)
qed

lemma finalize_percentages:
  assumes "within_usa sp" and "r = finalize sid sp"
  shows "\<forall>(p, c) \<in> set [(pct_dated_any r, dated_any (counts r)),
                        (pct_dated_full r, dated_full (counts r)),
                        (pct_post_2010 r, post_2010 (counts r)),
                        (pct_uncertainty_le_2km r, uncertainty_le_2km (counts r)),
                        (pct_captive_flagged r, captive_flagged (counts r))].
           p = round4 (true_divide c (max (usa_records (counts r)) 1))
           \<and> 0 \<le> p \<and> p \<le> 1
           \<and> \<bar>p - real c / real (max (usa_records (counts r)) 1)\<bar> \<le> 1 / 20000 + 1 / 2 ^ 52
           \<and> (usa_records (counts r) = 0 \<longrightarrow> p = 0)"
proof -
  from assms(1) have le: "dated_any sp \<le> usa_records sp" "dated_full sp \<le> usa_records sp"
    "post_2010 sp \<le> usa_records sp" "uncertainty_le_2km sp \<le> usa_records sp"
    "captive_flagged sp \<le> usa_records sp"
    by (simp_all add: within_usa_def)
  show ?thesis
    using le [THEN finalize_share]
    by (simp add: assms(2) finalize_def Let_def)
qed

lemma scan_files_rows:
  assumes "scan_files pd fs (srows, ov) = Inr (srows', ov')" and "r \<in> set srows'"
  shows "r \<in> set srows \<or> (\<exists>sid sp. within_usa sp \<and> r = finalize sid sp)"
  using assms
proof (induction fs arbitrary: srows ov)
  case Nil
  then show ?case by simp
next
  case (Cons f fs)
  from Cons.prems(1) obtain srows1 ov1 where
    one: "scan_file pd f (srows, ov) = Inr (srows1, ov1)"
    and rest: "scan_files pd fs (srows1, ov1) = Inr (srows', ov')"
    by (auto split: sum.splits)
  from Cons.IH [OF rest Cons.prems(2)] scan_file_row [OF one] show ?case
    by auto
qed

lemma within_usa_flag_counts: "within_usa (flag_counts fl us n)"
  by (simp add: within_usa_def count_s_and_le)

lemma excel_rows:
  assumes "scan_excel_combined pd wbs = Inr (Tuple srows ov)" and "r \<in> set srows"
  shows "\<exists>sid sp. within_usa sp \<and> r = finalize sid sp"
proof -
  from assms obtain fl ids where "srows = species_rows_of fl ids"
    by (auto simp: scan_excel_combined_def Let_def split: if_splits option.splits)
  with assms(2) obtain sid us n where "r = finalize sid (flag_counts fl us n)"
    by (auto simp: species_rows_of_def Let_def)
  then show ?thesis
    using within_usa_flag_counts by blast
qed

lemma tabular_rows:
  assumes "scan_tabular_files pd dir = Inr (Tuple srows ov)" and "r \<in> set srows"
  shows "\<exists>sid sp. within_usa sp \<and> r = finalize sid sp"
proof -
  from assms(1) obtain found ov' where
    "scan_files pd (filter (\<lambda>f. rx_found TABULAR_EXT (file_name f)) found) ([], zero_counters) = Inr (srows, ov')"
    by (auto simp: scan_tabular_files_def Let_def split: option.splits sum.splits)
  from scan_files_rows [OF this assms(2)] show ?thesis by simp
qed

text \<open>
  Claim C7 (as amended). In both paths every percentage field of a species row is
  \<open>round(c / max(usa_records, 1), 4)\<close> in float arithmetic: the double of the quotient,
  rounded to four decimals (not the quotient itself). It lies between 0 and 1, differs
  from the exact quotient by no more than \<open>0.00005 + 2 ^ (- 52)\<close>, and is 0 when the species
  has no US record.
\<close>

theorem percentages_are_rounded_shares:
  assumes "scan_tabular_files pd dir = Inr (Tuple srows ov)
           \<or> scan_excel_combined pd wbs = Inr (Tuple srows ov)"
    and "r \<in> set srows"
  shows "\<forall>(p, c) \<in> set [(pct_dated_any r, dated_any (counts r)),
                        (pct_dated_full r, dated_full (counts r)),
                        (pct_post_2010 r, post_2010 (counts r)),
                        (pct_uncertainty_le_2km r, uncertainty_le_2km (counts r)),
                        (pct_captive_flagged r, captive_flagged (counts r))].
           p = round4 (true_divide c (max (usa_records (counts r)) 1))
           \<and> 0 \<le> p \<and> p \<le> 1
           \<and> \<bar>p - real c / real (max (usa_records (counts r)) 1)\<bar> \<le> 1 / 20000 + 1 / 2 ^ 52
           \<and> (usa_records (counts r) = 0 \<longrightarrow> p = 0)"
proof -
  from assms obtain sid sp where "within_usa sp" "r = finalize sid sp"
    using tabular_rows excel_rows by blast
  then show ?thesis by (rule finalize_percentages)
qed

lemma scan_tabular_one_file:
  assumes "rx_found TABULAR_EXT (file_name f)"
    and "read_table f = ([chunk], None)" and "list_all (has_column chunk) STREAM_COLUMNS"
  shows "scan_tabular_files pd (Some [f]) =
     (let fl = stream_flags pd chunk; x = flag_counts fl (us_mask fl) (length (rows chunk))
      in Inr (Tuple [finalize (rx_remove TABULAR_EXT (file_name f)) (add_counters (new_species zero_counters) x)]
                    (Some (add_counters zero_counters x))))"
  using assms by (simp add: scan_tabular_files_def scan_file_one_chunk Let_def)

lemma dec_2015: "dec_to_numeric ''2015'' = Fin 2015"
  by (simp add: dec_to_numeric_def Let_def is_digit_def int_of_digits_def)

lemma file_thirds_read:
  "rx_found TABULAR_EXT (file_name file_thirds)"
  "read_table file_thirds = ([thirds_chunk], None)"
  "list_all (has_column thirds_chunk) STREAM_COLUMNS"
    apply (simp add: file_thirds_def) apply code_simp
   apply (simp add: read_table_def file_thirds_def endswith_def lower_def lower_char_def is_upper_def Let_def)
  apply (simp add: has_column_def thirds_chunk_def list_all_iff)
  done

lemma thirds_counts:
  "count (us_mask (stream_flags sample_pandas thirds_chunk)) = 3"
  "count (s_and (dated_any_mask (stream_flags sample_pandas thirds_chunk))
                (us_mask (stream_flags sample_pandas thirds_chunk))) = 1"
  by (simp_all add: stream_us_mask stream_dated_any_mask thirds_chunk_def row_of_def
        US_COUNTRY_TOKENS_def count_def s_and_def numeric_cell_def sample_pandas_def dec_2015 strip_def)


lemma thirds_share: "round4 (true_divide (Suc 0) 3) = nearest_double 3333 10000"
  by (simp add: true_divide_def round4_third)

text \<open>
  A species with three US records, one of them dated: the field is the double of
  0.3333, which is \<open>6004199023210345 / 2 ^ 54\<close>.
\<close>

theorem percentages_are_rounded_shares_witness:
  "\<exists>r ov. scan_tabular_files sample_pandas (Some [file_thirds]) = Inr (Tuple [r] ov)
      \<and> dated_any (counts r) = 1 \<and> usa_records (counts r) = 3
      \<and> pct_dated_any r = nearest_double 3333 10000
      \<and> 0 \<le> pct_dated_any r \<and> pct_dated_any r \<le> 1
      \<and> \<bar>pct_dated_any r - 1 / 3\<bar> \<le> 1 / 20000 + 1 / 2 ^ 52"
proof -
  obtain r ov where run: "scan_tabular_files sample_pandas (Some [file_thirds]) = Inr (Tuple [r] ov)"
    and c: "dated_any (counts r) = 1" "usa_records (counts r) = 3"
    by (simp add: scan_tabular_one_file [OF file_thirds_read] Let_def thirds_counts)
  from percentages_are_rounded_shares [OF disjI1 [OF run], of r] c
  have "pct_dated_any r = nearest_double 3333 10000 \<and> 0 \<le> pct_dated_any r \<and> pct_dated_any r \<le> 1
        \<and> \<bar>pct_dated_any r - 1 / 3\<bar> \<le> 1 / 20000 + 1 / 2 ^ 52"
    by (auto simp: thirds_share)
  with run c show ?thesis
    by blast
qed

text \<open>
  Claim C7 as stated fails there: the field is neither one third nor the double of one
  third.
\<close>

theorem percentage_is_not_the_exact_quotient:
  "(case scan_tabular_files sample_pandas (Some [file_thirds]) of
      Inr (Tuple [r] ov) \<Rightarrow>
        dated_any (counts r) = 1 \<and> usa_records (counts r) = 3
        \<and> pct_dated_any r \<noteq> real (dated_any (counts r)) / real (max (usa_records (counts r)) 1)
        \<and> pct_dated_any r \<noteq> true_divide (dated_any (counts r)) (max (usa_records (counts r)) 1)
    | _ \<Rightarrow> False)"
  apply (simp add: scan_tabular_one_file [OF file_thirds_read] Let_def thirds_counts finalize_def
        thirds_share nearest_double_3333)
  apply (simp add: true_divide_def nearest_double_third)
  done

subsection \<open>Alias resolution\<close>

lemma getcol_rows: "getcol df names = map (getcell df names) (rows df)"
  by (induction names) (auto simp: column_def map_replicate_const split: option.splits)

lemma lower_STREAM_COLUMNS:
  "map lower STREAM_COLUMNS = [''countrycode'', ''country'', ''decimallatitude'', ''decimallongitude'',
     ''eventdate'', ''year'', ''month'', ''day'', ''basisofrecord'', ''establishmentmeans'',
     ''issues'', ''mediatype'', ''associatedmedia'', ''occurrenceremarks'', ''locality'',
     ''habitat'', ''coordinateuncertaintyinmeters'']"
  by code_simp

lemma filter_distinct_key:
  "distinct (map f xs) \<Longrightarrow> x \<in> set xs \<Longrightarrow> filter (\<lambda>c. f c = f x) xs = [x]"
proof (induction xs)
  case Nil
  then show ?case by simp
next
  case (Cons a xs)
  show ?case
  proof (cases "a = x")
    case True
    with Cons.prems(1) have "filter (\<lambda>c. f c = f x) xs = []"
      by (auto simp: filter_empty_conv) (metis imageI)
    with True show ?thesis by simp
  next
    case False
    with Cons show ?thesis by auto
  qed
qed

lemma col_canonical:
  assumes "header df = STREAM_COLUMNS" and "name \<in> set STREAM_COLUMNS"
  shows "col df (lower name) = Some name"
proof -
  have "distinct (map lower STREAM_COLUMNS)"
    unfolding lower_STREAM_COLUMNS by simp
  from filter_distinct_key [OF this assms(2)] show ?thesis
    by (simp add: col_def assms(1))
qed

lemma getcell_canonical:
  assumes "header df = STREAM_COLUMNS" and "name \<in> set STREAM_COLUMNS"
  shows "getcell df (name # names) r = r name"
  by (simp add: col_canonical [OF assms])

declare getcell.simps [simp del]

lemma excel_us_mask:
  "us_mask (excel_flags pd df) =
     map (\<lambda>r. (case getcell df [''country'', ''countryCode''] r of
                 None \<Rightarrow> False | Some v \<Rightarrow> v \<in> set US_COUNTRY_TOKENS)
             \<or> between_c 18 72 (numeric_cell pd (getcell df [''decimalLatitude'', ''latitude''] r))
               \<and> between_c (- 179.5) (- 66) (numeric_cell pd (getcell df [''decimalLongitude'', ''longitude''] r)))
       (rows df)"
  by (simp add: excel_flags_def Let_def getcol_rows series_defs zip_map_map zip_map1 zip_map2
        zip_same_conv_map o_def split_def)


subsection \<open>Membership in the United States\<close>

lemma between_c_iff: "between_c lo hi x \<longleftrightarrow> (\<exists>r. x = Fin r \<and> lo \<le> r \<and> r \<le> hi)"
  by (cases x) (auto simp: between_c_def)

text \<open>
  Claim C10 (as amended). In the streaming path a record is in the US exactly when its
  \<open>countryCode\<close> cell or its \<open>country\<close> cell is one of the US tokens or its coordinates lie
  in the box [18, 72] by [-179.5, -66]. In the workbook path the country test reads one
  column only, the one \<open>getcol('country', 'countryCode')\<close> resolves to: the \<open>country\<close>
  column when the sheet has one, whatever the country code says.
\<close>

theorem in_us_rule:
  assumes "i < length (rows fr)"
  shows "(us_mask (stream_flags pd fr) ! i \<longleftrightarrow>
            (\<exists>v \<in> set US_COUNTRY_TOKENS.
               (rows fr ! i) ''countryCode'' = Some v \<or> (rows fr ! i) ''country'' = Some v)
            \<or> (\<exists>lat lon. numeric_cell pd ((rows fr ! i) ''decimalLatitude'') = Fin lat
                  \<and> numeric_cell pd ((rows fr ! i) ''decimalLongitude'') = Fin lon
                  \<and> 18 \<le> lat \<and> lat \<le> 72 \<and> - 179.5 \<le> lon \<and> lon \<le> - 66))
       \<and> (us_mask (excel_flags pd fr) ! i \<longleftrightarrow>
            (\<exists>v \<in> set US_COUNTRY_TOKENS.
               getcell fr [''country'', ''countryCode''] (rows fr ! i) = Some v)
            \<or> (\<exists>lat lon.
                  numeric_cell pd (getcell fr [''decimalLatitude'', ''latitude''] (rows fr ! i)) = Fin lat
                  \<and> numeric_cell pd (getcell fr [''decimalLongitude'', ''longitude''] (rows fr ! i)) = Fin lon
                  \<and> 18 \<le> lat \<and> lat \<le> 72 \<and> - 179.5 \<le> lon \<and> lon \<le> - 66))"
  using assms
  by (auto simp: stream_us_mask excel_us_mask between_c_iff split: option.splits)

lemma dec_samples:
  "dec_to_numeric ''40.0'' = Fin 40" "dec_to_numeric ''-75.0'' = Fin (- 75)"
  "dec_to_numeric ''10.0'' = Fin 10"
  by (simp_all add: dec_to_numeric_def Let_def is_digit_def int_of_digits_def)

lemma header_samples [simp]:
  "header us_examples = STREAM_COLUMNS" "header code_only_frame = STREAM_COLUMNS"
  by (simp_all add: us_examples_def code_only_frame_def)

lemma in_STREAM_COLUMNS [simp]:
  "''country'' \<in> set STREAM_COLUMNS" "''countryCode'' \<in> set STREAM_COLUMNS"
  "''decimalLatitude'' \<in> set STREAM_COLUMNS" "''decimalLongitude'' \<in> set STREAM_COLUMNS"
  by (simp_all add: STREAM_COLUMNS_def)

text \<open>The three examples of the claim, in both paths.\<close>

theorem in_us_rule_witness:
  "us_mask (stream_flags sample_pandas us_examples) ! 0
   \<and> us_mask (stream_flags sample_pandas us_examples) ! 1
   \<and> \<not> us_mask (stream_flags sample_pandas us_examples) ! 2
   \<and> us_mask (excel_flags sample_pandas us_examples) ! 0
   \<and> us_mask (excel_flags sample_pandas us_examples) ! 1
   \<and> \<not> us_mask (excel_flags sample_pandas us_examples) ! 2"
proof -
  have r: "rows us_examples =
      [row_of [(''country'', ''US'')],
       row_of [(''decimalLatitude'', ''40.0''), (''decimalLongitude'', ''-75.0'')],
       row_of [(''decimalLatitude'', ''40.0''), (''decimalLongitude'', ''10.0'')]]"
    by (simp add: us_examples_def)
  show ?thesis
    using in_us_rule [of 0 us_examples sample_pandas] in_us_rule [of 1 us_examples sample_pandas]
      in_us_rule [of 2 us_examples sample_pandas]
    by (simp add: r getcell_canonical row_of_def numeric_cell_def sample_pandas_def dec_samples
          US_COUNTRY_TOKENS_def)
qed

text \<open>
  Claim C10 as stated fails in the workbook path: the country code of the record is \<open>US\<close>,
  and the record is not counted as in the US.
\<close>

theorem country_code_ignored_by_workbook_path:
  "(rows code_only_frame ! 0) ''countryCode'' = Some ''US''
   \<and> ''US'' \<in> set US_COUNTRY_TOKENS
   \<and> \<not> us_mask (excel_flags sample_pandas code_only_frame) ! 0"
proof -
  have r: "rows code_only_frame = [row_of [(''countryCode'', ''US''), (''country'', ''U.S.'')]]"
    by (simp add: code_only_frame_def)
  show ?thesis
    by (simp add: excel_us_mask getcell_canonical r row_of_def numeric_cell_def
          US_COUNTRY_TOKENS_def between_c_def)
qed

subsection \<open>The date chain of the workbook path\<close>

lemma length_fill_from [simp]: "length (fill_from a b) = min (length a) (length b)"
  by (simp add: fill_from_def)

lemma nth_fill_from:
  "i < length a \<Longrightarrow> i < length b \<Longrightarrow>
   fill_from a b ! i = (case a ! i of None \<Rightarrow> b ! i | Some v \<Rightarrow> Some v)"
  by (simp add: fill_from_def)

lemma length_column [simp]: "length (column df c) = length (rows df)"
  by (simp add: column_def)

lemma length_parse_column [simp]: "length (parse_column pd s) = length s"
  by (simp add: parse_column_def Let_def series_defs)


lemma parse_column_serial:
  assumes "i < length s" and "datetime_cell pd (s ! i) = None"
    and "to_datetime pd (before_slash (case s ! i of None \<Rightarrow> [] | Some v \<Rightarrow> v)) = None"
  shows "parse_column pd s ! i = serial_dt (numeric_cell pd (s ! i))"
  using assms by (simp add: parse_column_def Let_def series_defs nth_fill_from)

lemma length_fill_dates [simp]:
  "length dt = length (rows df) \<Longrightarrow> length (fill_dates pd df cand dt) = length (rows df)"
  by (induction cand arbitrary: dt) (simp_all add: Let_def)

lemma fill_dates_keep:
  assumes "length dt = length (rows df)" and "i < length dt" and "dt ! i = Some t"
  shows "fill_dates pd df cand dt ! i = Some t"
  using assms
  by (induction cand arbitrary: dt) (simp_all add: Let_def nth_fill_from)

lemma fill_dates_none:
  assumes "length dt = length (rows df)" and "i < length dt" and "dt ! i = None"
    and "\<forall>c \<in> set cand. parse_column pd (column df c) ! i = None"
  shows "fill_dates pd df cand dt ! i = None"
  using assms
proof (induction cand arbitrary: dt)
  case Nil
  then show ?case by simp
next
  case (Cons c cand)
  let ?dt' = "fill_from dt (parse_column pd (column df c))"
  have n: "?dt' ! i = None" using Cons.prems by (simp add: nth_fill_from)
  have "\<not> list_all (\<lambda>t. t \<noteq> None) ?dt'"
    using n Cons.prems(1,2) by (auto simp: list_all_length)
  moreover have "fill_dates pd df cand ?dt' ! i = None"
    using Cons.prems n by (intro Cons.IH) simp_all
  ultimately show ?case by (simp add: Let_def)
qed

lemma fill_dates_first:
  assumes "length dt = length (rows df)" and "i < length dt" and "dt ! i = None"
    and "\<forall>c' \<in> set pre. parse_column pd (column df c') ! i = None"
    and "parse_column pd (column df c) ! i = Some t"
  shows "fill_dates pd df (pre @ c # post) dt ! i = Some t"
  using assms
proof (induction pre arbitrary: dt)
  case Nil
  let ?dt' = "fill_from dt (parse_column pd (column df c))"
  have "?dt' ! i = Some t" using Nil by (simp add: nth_fill_from)
  moreover have "length ?dt' = length (rows df)" "i < length ?dt'" using Nil by simp_all
  ultimately show ?case
    by (simp add: Let_def fill_dates_keep)
next
  case (Cons a pre)
  let ?dt' = "fill_from dt (parse_column pd (column df a))"
  have n: "?dt' ! i = None" using Cons.prems by (simp add: nth_fill_from)
  have "\<not> list_all (\<lambda>t. t \<noteq> None) ?dt'"
    using n Cons.prems(1,2) by (auto simp: list_all_length)
  moreover have "fill_dates pd df (pre @ c # post) ?dt' ! i = Some t"
    using Cons.prems n by (intro Cons.IH) simp_all
  ultimately show ?case by (simp add: Let_def)
qed

lemma length_sniff_dates [simp]:
  "length dt = length (rows df) \<Longrightarrow> length (sniff_dates pd df dt) = length (rows df)"
  by (simp add: sniff_dates_def Let_def)

lemma sniff_dates_keep:
  assumes "length dt = length (rows df)" and "i < length dt" and "dt ! i = Some t"
  shows "sniff_dates pd df dt ! i = Some t"
  using assms by (simp add: sniff_dates_def Let_def nth_fill_from)

lemma length_resolve_dates [simp]: "length (resolve_dates pd df) = length (rows df)"
  by (simp add: resolve_dates_def)

text \<open>
  Claim C8 (as amended). In the combined-workbook path: when the candidate columns before
  \<open>c\<close> leave a record undated, and its text under \<open>c\<close> fails the textual parse and the
  range split and is a number between 50 and 60000, the record's date is that many days
  after 1899-12-30, and the free-text stage does not change it.
\<close>

theorem serial_dates_resolve:
  assumes "date_candidates df = pre @ c # post"
    and "i < length (rows df)"
    and "\<forall>c' \<in> set pre. parse_column pd (column df c') ! i = None"
    and "(rows df ! i) c = Some s"
    and "to_datetime pd s = None" and "to_datetime pd (before_slash s) = None"
    and "to_numeric pd s = Fin x" and "50 \<le> x" and "x \<le> 60000"
  shows "resolve_dates pd df ! i = Some (timestamp 1899 12 30 + x)"
proof -
  let ?dt = "replicate (length (rows df)) None :: instant option list"
  have cell: "column df c ! i = Some s"
    using assms(2,4) by (simp add: column_def)
  have "parse_column pd (column df c) ! i = serial_dt (numeric_cell pd (column df c ! i))"
    using assms(2,5,6) cell by (intro parse_column_serial) (simp_all add: datetime_cell_def)
  also have "\<dots> = Some (timestamp 1899 12 30 + x)"
    using assms(7-9) cell by (simp add: numeric_cell_def serial_dt_def between_c_def)
  finally have "fill_dates pd df (pre @ c # post) ?dt ! i = Some (timestamp 1899 12 30 + x)"
    using assms(2,3) by (intro fill_dates_first) simp_all
  then show ?thesis
    unfolding resolve_dates_def assms(1) using assms(2)
    by (intro sniff_dates_keep) simp_all
qed

lemma sample_pandas_sel:
  "to_datetime sample_pandas = iso_to_datetime" "to_numeric sample_pandas = dec_to_numeric"
  by (simp_all add: sample_pandas_def)

lemma serial_sample_facts:
  "iso_to_datetime ''42370'' = None" "dec_to_numeric ''42370'' = Fin 42370"
  "before_slash ''42370'' = ''42370''" "timestamp 1899 12 30 + 42370 = timestamp 2016 1 1"
  "timestamp 2016 1 1 < timestamp 2017 1 1" "\<not> timestamp 2010 1 1 \<le> timestamp 1987 1 1"
  by (simp_all add: iso_to_datetime_def dec_to_numeric_def Let_def is_digit_def int_of_digits_def
        before_slash_def timestamp_def days_from_civil_def)

lemma serial_sheet_candidates: "date_candidates serial_sheet = [''eventDate'']"
  by code_simp

text \<open>The text \<open>42370\<close> with no other date field resolves to 2016-01-01.\<close>

theorem serial_dates_resolve_witness:
  "resolve_dates sample_pandas serial_sheet ! 0 = Some (timestamp 2016 1 1)
   \<and> timestamp 2016 1 1 < timestamp 2017 1 1"
proof -
  have r: "rows serial_sheet = [row_of [(''species'', ''Crotalus atrox''), (''eventDate'', ''42370'')]]"
    by (simp add: serial_sheet_def)
  show ?thesis
    using serial_dates_resolve [of serial_sheet "[]" "''eventDate''" "[]" 0 sample_pandas "''42370''" 42370]
    by (simp add: serial_sheet_candidates r row_of_def sample_pandas_sel serial_sample_facts)
qed

text \<open>
  Claim C8 as stated fails in the streaming path, which has the textual parse only: the
  same record there is dated-any, not dated-full and not post-2010.
\<close>

theorem streaming_path_has_no_serial_stage:
  "dated_any_mask (stream_flags sample_pandas serial_chunk) = [True]
   \<and> dated_full_mask (stream_flags sample_pandas serial_chunk) = [False]
   \<and> post2010_mask (stream_flags sample_pandas serial_chunk) = [False]"
  by (simp add: stream_dated_any_mask stream_dated_full_mask stream_post2010_mask serial_chunk_def
        row_of_def datetime_cell_def numeric_cell_def sample_pandas_sel serial_sample_facts
        strip_def is_space_def)

lemma excel_dated_full_nth:
  assumes "i < length (rows df)"
  shows "dated_full_mask (excel_flags pd df) ! i \<longleftrightarrow>
           resolve_dates pd df ! i \<noteq> None
           \<or> numeric_cell pd (getcell df [''year''] (rows df ! i)) \<noteq> NaN
             \<and> numeric_cell pd (getcell df [''month''] (rows df ! i)) \<noteq> NaN
             \<and> numeric_cell pd (getcell df [''day''] (rows df ! i)) \<noteq> NaN"
  using assms
  by (simp add: excel_flags_def Let_def getcol_rows series_defs)

lemma excel_dated_any_nth:
  assumes "i < length (rows df)"
  shows "dated_any_mask (excel_flags pd df) ! i \<longleftrightarrow>
           resolve_dates pd df ! i \<noteq> None
           \<or> numeric_cell pd (getcell df [''year''] (rows df ! i)) \<noteq> NaN"
  using assms
  by (simp add: excel_flags_def Let_def getcol_rows series_defs)

text \<open>
  Claim C5 (as amended). A record is dated-full exactly when its date resolves to an
  instant (in the streaming path: the \<open>eventDate\<close> text parses; in the workbook path: the
  date chain, free-text sniffing included, gives an instant) or its year, month and day
  fields are all present. So a record whose only date information is its year field is
  dated-any and not dated-full, while one whose date resolves, be it to the first of
  January of a sniffed year, is dated-full.
\<close>

theorem dated_full_rule:
  assumes "i < length (rows fr)"
  shows "(dated_full_mask (stream_flags pd fr) ! i \<longleftrightarrow>
            datetime_cell pd ((rows fr ! i) ''eventDate'') \<noteq> None
            \<or> numeric_cell pd ((rows fr ! i) ''year'') \<noteq> NaN
              \<and> numeric_cell pd ((rows fr ! i) ''month'') \<noteq> NaN
              \<and> numeric_cell pd ((rows fr ! i) ''day'') \<noteq> NaN)
       \<and> (dated_full_mask (excel_flags pd fr) ! i \<longleftrightarrow>
            resolve_dates pd fr ! i \<noteq> None
            \<or> numeric_cell pd (getcell fr [''year''] (rows fr ! i)) \<noteq> NaN
              \<and> numeric_cell pd (getcell fr [''month''] (rows fr ! i)) \<noteq> NaN
              \<and> numeric_cell pd (getcell fr [''day''] (rows fr ! i)) \<noteq> NaN)
       \<and> (datetime_cell pd ((rows fr ! i) ''eventDate'') = None
            \<and> numeric_cell pd ((rows fr ! i) ''year'') \<noteq> NaN
            \<and> (numeric_cell pd ((rows fr ! i) ''month'') = NaN
                \<or> numeric_cell pd ((rows fr ! i) ''day'') = NaN)
          \<longrightarrow> dated_any_mask (stream_flags pd fr) ! i
              \<and> \<not> dated_full_mask (stream_flags pd fr) ! i)
       \<and> (resolve_dates pd fr ! i = None
            \<and> numeric_cell pd (getcell fr [''year''] (rows fr ! i)) \<noteq> NaN
            \<and> (numeric_cell pd (getcell fr [''month''] (rows fr ! i)) = NaN
                \<or> numeric_cell pd (getcell fr [''day''] (rows fr ! i)) = NaN)
          \<longrightarrow> dated_any_mask (excel_flags pd fr) ! i
              \<and> \<not> dated_full_mask (excel_flags pd fr) ! i)"
  using assms
  by (auto simp: stream_dated_full_mask stream_dated_any_mask excel_dated_full_nth excel_dated_any_nth)

lemma year_only_sheet_cells:
  "getcell year_only_sheet [''year''] r = r ''year''"
  "getcell year_only_sheet [''month''] r = None"
  "getcell year_only_sheet [''day''] r = None"
  "getcell sniff_sheet [''year''] r = None"
  by (simp_all add: getcell.simps col_def year_only_sheet_def sniff_sheet_def lower_def lower_char_def is_upper_def)

lemma sample_resolved:
  "resolve_dates sample_pandas sniff_sheet = [Some (timestamp 1987 1 1)]"
  "resolve_dates sample_pandas year_only_sheet = [None]"
  by code_simp+

text \<open>A record with the year field only, in both paths.\<close>

theorem dated_full_rule_witness:
  "dated_any_mask (stream_flags sample_pandas year_only_chunk) ! 0
   \<and> \<not> dated_full_mask (stream_flags sample_pandas year_only_chunk) ! 0
   \<and> dated_any_mask (excel_flags sample_pandas year_only_sheet) ! 0
   \<and> \<not> dated_full_mask (excel_flags sample_pandas year_only_sheet) ! 0"
proof -
  have r: "rows year_only_chunk = [row_of [(''country'', ''US''), (''year'', ''2015'')]]"
    "rows year_only_sheet = [row_of [(''year'', ''2015'')]]"
    by (simp_all add: year_only_chunk_def year_only_sheet_def)
  show ?thesis
    using dated_full_rule [of 0 year_only_chunk sample_pandas]
      dated_full_rule [of 0 year_only_sheet sample_pandas]
    by (simp add: r row_of_def datetime_cell_def numeric_cell_def sample_pandas_sel dec_2015
          year_only_sheet_cells sample_resolved)
qed

text \<open>
  Claim C5 as stated fails: a record whose only date information is a year sniffed from
  its remarks is dated-full.
\<close>

theorem sniffed_year_counts_as_full_date:
  "getcell sniff_sheet [''year''] (rows sniff_sheet ! 0) = None
   \<and> resolve_dates sample_pandas sniff_sheet = [Some (timestamp 1987 1 1)]
   \<and> dated_full_mask (excel_flags sample_pandas sniff_sheet) ! 0"
proof -
  have "length (rows sniff_sheet) = 1" by (simp add: sniff_sheet_def)
  then show ?thesis
    by (simp add: excel_dated_full_nth year_only_sheet_cells sample_resolved)
qed

subsection \<open>Workbook selection\<close>

lemma key_le_refl [simp]: "key_le x x"
  by (simp add: key_le_def)

lemma key_le_total: "key_le x y \<or> key_le y x"
  by (auto simp: key_le_def)

lemma key_le_trans: "key_le x y \<Longrightarrow> key_le y z \<Longrightarrow> key_le x z"
  by (auto simp: key_le_def)

lemma key_le_antisym: "key_le x y \<Longrightarrow> key_le y x \<Longrightarrow> x = y"
  by (auto simp: key_le_def prod_eq_iff)

lemma set_insert_ranked [simp]: "set (insert_ranked x ys) = insert x (set ys)"
  by (induction ys) auto

lemma ranked_insert: "ranked_desc ys \<Longrightarrow> ranked_desc (insert_ranked x ys)"
proof (induction ys)
  case Nil
  then show ?case by simp
next
  case (Cons y ys)
  show ?case
  proof (cases "key_le (fst y) (fst x)")
    case True
    with Cons.prems show ?thesis
      by (auto intro: key_le_trans)
  next
    case False
    then have "key_le (fst x) (fst y)" using key_le_total by blast
    with False Cons show ?thesis by auto
  qed
qed

lemma ranked_sorted_reverse: "ranked_desc (sorted_reverse xs)"
  by (induction xs) (simp_all add: sorted_reverse_def ranked_insert)

lemma filter_insert_ranked:
  "filter (\<lambda>y. fst y = k) (insert_ranked x ys) =
     (if fst x = k then x # filter (\<lambda>y. fst y = k) ys else filter (\<lambda>y. fst y = k) ys)"
proof (induction ys)
  case Nil
  then show ?case by simp
next
  case (Cons y ys)
  show ?case
  proof (cases "key_le (fst y) (fst x)")
    case True
    then show ?thesis by simp
  next
    case False
    then have "fst y \<noteq> fst x" by auto
    with False Cons show ?thesis by auto
  qed
qed

lemma filter_sorted_reverse:
  "filter (\<lambda>y. fst y = k) (sorted_reverse xs) = filter (\<lambda>y. fst y = k) xs"
  by (induction xs) (simp_all add: sorted_reverse_def filter_insert_ranked)

lemma set_sorted_reverse [simp]: "set (sorted_reverse xs) = set xs"
  by (induction xs) (simp_all add: sorted_reverse_def)


lemma ranked_head_greatest:
  assumes "ranked_desc (r0 # rest)" and "y \<in> set (r0 # rest)"
  shows "key_le (fst y) (fst r0)"
  using assms by auto

lemma ranked_filter_head:
  assumes "ranked_desc (r0 # r1 # rest)" and "fst r1 \<noteq> fst r0"
  shows "filter (\<lambda>y. fst y = fst r0) (r0 # r1 # rest) = [r0]"
proof -
  have "fst y \<noteq> fst r0" if "y \<in> set (r1 # rest)" for y
  proof
    assume eq: "fst y = fst r0"
    have "key_le (fst y) (fst r1)" using assms(1) that by auto
    moreover have "key_le (fst r1) (fst r0)" using assms(1) by auto
    ultimately have "fst r1 = fst r0" using eq key_le_antisym by metis
    with assms(2) show False by simp
  qed
  then have "filter (\<lambda>y. fst y = fst r0) (r1 # rest) = []"
    by (simp only: filter_empty_conv) blast
  then show ?thesis by simp
qed

text \<open>
  What lines 256 to 260 compute. The selection is a function of the candidate list in
  directory order. The selected workbook always has the greatest key (score, column
  count). Among the candidates with the greatest key, taken in directory order, it is
  the first one, unless the name of the first ends in \<open>_clean.xlsx\<close> and there is a
  second: then it is the second, whatever its name.
\<close>

lemma select_workbook_rule:
  assumes "excel_paths \<noteq> []"
  shows "\<exists>top \<in> set excel_paths.
           (\<forall>p \<in> set excel_paths. key_le (score_excel p) (score_excel top))
           \<and> (let best = filter (\<lambda>p. score_excel p = score_excel top) excel_paths in
                select_workbook excel_paths =
                  Some (if endswith (wb_name (hd best)) ''_clean.xlsx'' \<and> 2 \<le> length best
                        then best ! 1 else hd best))"
proof -
  let ?f = "\<lambda>p. (score_excel p, p)"
  let ?ranked = "sorted_reverse (map ?f excel_paths)"
  have sorted: "ranked_desc ?ranked" by (rule ranked_sorted_reverse)
  have elems: "set ?ranked = ?f ` set excel_paths" by simp
  from assms elems obtain r0 rest where ranked: "?ranked = r0 # rest"
    by (cases ?ranked) auto
  have "r0 \<in> set ?ranked" by (simp add: ranked)
  then have "r0 \<in> ?f ` set excel_paths" by (simp only: elems)
  then obtain top where top: "top \<in> set excel_paths" "r0 = ?f top"
    by (rule imageE)
  have greatest: "\<forall>p \<in> set excel_paths. key_le (score_excel p) (score_excel top)"
  proof
    fix p assume "p \<in> set excel_paths"
    then have "?f p \<in> set (r0 # rest)" using elems ranked by auto
    from ranked_head_greatest [OF sorted [unfolded ranked] this] top(2)
    show "key_le (score_excel p) (score_excel top)" by simp
  qed
  let ?best = "filter (\<lambda>p. score_excel p = score_excel top) excel_paths"
  have stable: "filter (\<lambda>y. fst y = score_excel top) (r0 # rest) = map ?f ?best"
    using filter_sorted_reverse [of "score_excel top" "map ?f excel_paths"]
    by (simp add: ranked filter_map o_def)
  have "select_workbook excel_paths =
          Some (if endswith (wb_name (hd ?best)) ''_clean.xlsx'' \<and> 2 \<le> length ?best
                then ?best ! 1 else hd ?best)"
  proof (cases rest)
    case Nil
    with stable top(2) have "map ?f ?best = [?f top]" by simp
    then have "?best = [top]" by (auto simp: map_eq_Cons_conv)
    with Nil ranked top(2) show ?thesis
      by (simp add: select_workbook_def)
  next
    case (Cons r1 rest')
    show ?thesis
    proof (cases "fst r1 = fst r0")
      case True
      with stable Cons top(2) have "\<exists>bs. map ?f ?best = ?f top # r1 # bs" by auto
      then obtain b1 bs where best: "?best = top # b1 # bs" and r1: "r1 = ?f b1"
        by (auto simp: map_eq_Cons_conv)
      from True top(2) have "key_le (fst r0) (fst r1)" by simp
      with Cons ranked top(2) best r1 show ?thesis
        by (simp add: select_workbook_def)
    next
      case False
      from ranked_filter_head [OF sorted [unfolded ranked Cons] False] stable Cons top(2)
      have "map ?f ?best = [?f top]" by simp
      then have best: "?best = [top]" by (auto simp: map_eq_Cons_conv)
      have "key_le (fst r1) (fst r0)" using sorted [unfolded ranked Cons] by simp
      with False have "\<not> key_le (fst r0) (fst r1)" using key_le_antisym by metis
      with Cons ranked top(2) best show ?thesis
        by (simp add: select_workbook_def)
    qed
  qed
  with top(1) greatest show ?thesis
    by (auto simp: Let_def)
qed


lemma sample_scores:
  "score_excel wb_raw = (6, 1)" "score_excel wb_clean = (6, 1)" "score_excel wb_wide_clean = (6, 2)"
  "score_excel wb_clean_v2 = (6, 1)"
  by code_simp+

lemma sample_names:
  "\<not> endswith (wb_name wb_raw) ''_clean.xlsx''" "endswith (wb_name wb_clean) ''_clean.xlsx''"
  "endswith (wb_name wb_wide_clean) ''_clean.xlsx''"
  "endswith (wb_name wb_clean_v2) ''_clean.xlsx''"
  by (simp_all add: endswith_def wb_raw_def wb_clean_def wb_wide_clean_def wb_clean_v2_def)

text \<open>A cleaned and a raw workbook with equal keys: the raw one is selected.\<close>

lemma raw_workbook_selected_on_tie:
  "select_workbook [wb_clean, wb_raw] = Some wb_raw"
  using select_workbook_rule [of "[wb_clean, wb_raw]"]
  by (auto simp: sample_scores sample_names Let_def)

text \<open>
  Claim C9 (code defect). The comment on line 257 announces that on a tie the file that
  is not a cleaned one is preferred, and the claim says the same; line 260 takes the
  second of the ranking without looking at its name. When the first two candidates
  with the greatest key are both cleaned files, the second cleaned file is selected,
  although a workbook that is not a cleaned one has the same key.
\<close>

theorem cleaned_runner_up_is_selected:
  assumes "endswith (wb_name a) ''_clean.xlsx''" and "endswith (wb_name b) ''_clean.xlsx''"
    and "score_excel b = score_excel a"
    and "\<forall>p \<in> set rest. key_le (score_excel p) (score_excel a)"
    and "raw \<in> set rest" and "score_excel raw = score_excel a"
    and "\<not> endswith (wb_name raw) ''_clean.xlsx''"
  shows "select_workbook (a # b # rest) = Some b \<and> b \<noteq> raw"
proof -
  let ?paths = "a # b # rest"
  have "\<exists>top \<in> set ?paths.
           (\<forall>p \<in> set ?paths. key_le (score_excel p) (score_excel top))
           \<and> (let best = filter (\<lambda>p. score_excel p = score_excel top) ?paths in
                select_workbook ?paths =
                  Some (if endswith (wb_name (hd best)) ''_clean.xlsx'' \<and> 2 \<le> length best
                        then best ! 1 else hd best))"
    by (rule select_workbook_rule) simp
  then obtain top where top: "top \<in> set ?paths"
    and greatest: "\<forall>p \<in> set ?paths. key_le (score_excel p) (score_excel top)"
    and sel0: "let best = filter (\<lambda>p. score_excel p = score_excel top) ?paths in
                select_workbook ?paths =
                  Some (if endswith (wb_name (hd best)) ''_clean.xlsx'' \<and> 2 \<le> length best
                        then best ! 1 else hd best)"
    by blast
  note sel = sel0 [unfolded Let_def]
  have "key_le (score_excel top) (score_excel a)"
    using top assms(3,4) by auto
  moreover have "key_le (score_excel a) (score_excel top)"
    using greatest by simp
  ultimately have eq: "score_excel top = score_excel a"
    by (rule key_le_antisym)
  have "filter (\<lambda>p. score_excel p = score_excel top) ?paths =
          a # b # filter (\<lambda>p. score_excel p = score_excel a) rest"
    by (simp add: eq assms(3))
  with sel assms(1) have "select_workbook ?paths = Some b"
    by simp
  moreover have "b \<noteq> raw" using assms(2,7) by auto
  ultimately show ?thesis by simp
qed

text \<open>
  Two cleaned workbooks and a raw one, all three with the key (6, 1): the second
  cleaned workbook is selected.
\<close>

theorem cleaned_runner_up_is_selected_witness:
  "select_workbook [wb_clean, wb_clean_v2, wb_raw] = Some wb_clean_v2
   \<and> endswith (wb_name wb_clean_v2) ''_clean.xlsx''
   \<and> \<not> endswith (wb_name wb_raw) ''_clean.xlsx''
   \<and> score_excel wb_raw = score_excel wb_clean_v2"
  using cleaned_runner_up_is_selected [of wb_clean wb_clean_v2 "[wb_raw]" wb_raw]
  by (simp add: sample_scores sample_names)

text \<open>
  The tie is one of the whole keys: a cleaned workbook whose score equals the raw
  one's and that has more columns ranks first and stays selected.
\<close>

lemma cleaned_workbook_kept_on_score_tie:
  "fst (score_excel wb_wide_clean) = fst (score_excel wb_raw)
   \<and> endswith (wb_name wb_wide_clean) ''_clean.xlsx''
   \<and> \<not> endswith (wb_name wb_raw) ''_clean.xlsx''
   \<and> select_workbook [wb_raw, wb_wide_clean] = Some wb_wide_clean"
  by (simp add: select_workbook_def sorted_reverse_def key_le_def sample_scores sample_names)

subsection \<open>Files that cannot be read\<close>









text \<open>Only the lines of a line-delimited file fail locally: they are skipped.\<close>

lemma read_table_skips_lines:
  assumes "endswith (lower (file_name f)) ''.ndjson''"
  shows "fst (read_table f) = concat (map (\<lambda>l. case l of Record fr \<Rightarrow> [fr] | _ \<Rightarrow> []) (lines f))"
    and "Malformed \<in> set (lines f) \<Longrightarrow> snd (read_table f) = failure f"
  using assms by (simp_all add: read_table_def Let_def)

subsection \<open>The two paths on the same records\<close>

lemmas zip_simps = zip_map_map zip_map1 zip_map2 zip_same_conv_map o_def split_def






lemma excel_valid_mask:
  "valid_mask (excel_flags pd df) =
     map (\<lambda>r. between_c (- 90) 90 (numeric_cell pd (getcell df [''decimalLatitude'', ''latitude''] r))
             \<and> between_c (- 180) 180 (numeric_cell pd (getcell df [''decimalLongitude'', ''longitude''] r)))
       (rows df)"
  by (simp add: excel_flags_def Let_def getcol_rows series_defs zip_simps)

lemma excel_unc2k_mask:
  "unc2k_mask (excel_flags pd df) =
     map (\<lambda>r. numeric_cell pd (getcell df [''coordinateUncertaintyInMeters'', ''accuracy_m''] r) \<noteq> NaN
             \<and> le_c (numeric_cell pd (getcell df [''coordinateUncertaintyInMeters'', ''accuracy_m''] r)) 2000)
       (rows df)"
  by (simp add: excel_flags_def Let_def getcol_rows series_defs zip_simps)

lemma excel_gbad_mask:
  "gbad_mask (excel_flags pd df) =
     map (\<lambda>r. any_bad_issue (upper (case getcell df [''issues'', ''issue''] r of None \<Rightarrow> [] | Some v \<Rightarrow> v)))
       (rows df)"
  by (simp add: excel_flags_def Let_def getcol_rows series_defs zip_simps)

lemma excel_captive_mask:
  "captive_mask (excel_flags pd df) =
     map (\<lambda>r. lower (case getcell df [''establishmentMeans''] r of None \<Rightarrow> [] | Some v \<Rightarrow> v) \<in> set CAPTIVE_MEANS
             \<or> rx_found CAPTIVE_HINTS
                  ((case getcell df [''occurrenceRemarks'', ''remarks'', ''Remarks''] r of None \<Rightarrow> [] | Some v \<Rightarrow> v) @ '' ''
                   @ (case getcell df [''locality'', ''Locality''] r of None \<Rightarrow> [] | Some v \<Rightarrow> v) @ '' ''
                   @ (case getcell df [''habitat'', ''Habitat''] r of None \<Rightarrow> [] | Some v \<Rightarrow> v)))
       (rows df)"
  by (simp add: excel_flags_def Let_def getcol_rows series_defs zip_simps)

lemma excel_bucket:
  "bucket (excel_flags pd df) =
     map (\<lambda>r. basis_bucket (case getcell df [''basisOfRecord'', ''source'', ''Source'', ''datasetName'', ''Dataset''] r of
                               None \<Rightarrow> ''Other'' | Some v \<Rightarrow> v)) (rows df)"
  by (simp add: excel_flags_def Let_def getcol_rows series_defs zip_simps)

lemma excel_has_media_mask:
  "has_media_mask (excel_flags pd df) =
     map (\<lambda>r. (case getcell df [''mediaType'', ''associatedMedia''] r of None \<Rightarrow> [] | Some v \<Rightarrow> v) \<noteq> [])
       (rows df)"
  by (simp add: excel_flags_def Let_def getcol_rows series_defs zip_simps)








lemma in_STREAM_COLUMNS_all [simp]:
  "''eventDate'' \<in> set STREAM_COLUMNS" "''year'' \<in> set STREAM_COLUMNS"
  "''month'' \<in> set STREAM_COLUMNS" "''day'' \<in> set STREAM_COLUMNS"
  "''basisOfRecord'' \<in> set STREAM_COLUMNS" "''establishmentMeans'' \<in> set STREAM_COLUMNS"
  "''issues'' \<in> set STREAM_COLUMNS" "''mediaType'' \<in> set STREAM_COLUMNS"
  "''associatedMedia'' \<in> set STREAM_COLUMNS" "''occurrenceRemarks'' \<in> set STREAM_COLUMNS"
  "''locality'' \<in> set STREAM_COLUMNS" "''habitat'' \<in> set STREAM_COLUMNS"
  "''coordinateUncertaintyInMeters'' \<in> set STREAM_COLUMNS"
  by (simp_all add: STREAM_COLUMNS_def)





subsection \<open>The workbook path on missing fields and on buckets\<close>

lemma getcell_no_alias:
  "\<forall>n \<in> set names. col df (lower n) = None \<Longrightarrow> getcell df names r = None"
  by (induction names) (auto simp: getcell.simps)

lemma no_hint_in_blank: "\<not> rx_found CAPTIVE_HINTS ''  ''"
  by code_simp

lemma no_issue_in_blank: "\<not> any_bad_issue (upper [])"
  by (simp add: any_bad_issue_def GBIF_BAD_ISSUES_def upper_def)

text \<open>
  What claim C2 asks for does hold in the workbook path: a field none of whose aliases is
  a header of the sheet is a column of missing cells, and the flags that rest on it are
  false (the bucket is \<open>Other\<close>).
\<close>

lemma workbook_missing_fields:
  assumes "i < length (rows df)"
  shows "(\<forall>n \<in> set [''issues'', ''issue'']. col df (lower n) = None)
           \<Longrightarrow> \<not> gbad_mask (excel_flags pd df) ! i"
    and "(\<forall>n \<in> set [''mediaType'', ''associatedMedia'']. col df (lower n) = None)
           \<Longrightarrow> \<not> has_media_mask (excel_flags pd df) ! i"
    and "(\<forall>n \<in> set [''coordinateUncertaintyInMeters'', ''accuracy_m'']. col df (lower n) = None)
           \<Longrightarrow> \<not> unc2k_mask (excel_flags pd df) ! i"
    and "(\<forall>n \<in> set [''basisOfRecord'', ''source'', ''Source'', ''datasetName'', ''Dataset''].
            col df (lower n) = None)
           \<Longrightarrow> bucket (excel_flags pd df) ! i = ''Other''"
    and "(\<forall>n \<in> set [''establishmentMeans'', ''occurrenceRemarks'', ''remarks'', ''Remarks'',
                      ''locality'', ''Locality'', ''habitat'', ''Habitat'']. col df (lower n) = None)
           \<Longrightarrow> \<not> captive_mask (excel_flags pd df) ! i"
    and "(\<forall>n \<in> set [''country'', ''countryCode'', ''decimalLatitude'', ''latitude''].
            col df (lower n) = None)
           \<Longrightarrow> \<not> us_mask (excel_flags pd df) ! i \<and> \<not> valid_mask (excel_flags pd df) ! i"
proof -
  show "(\<forall>n \<in> set [''issues'', ''issue'']. col df (lower n) = None)
           \<Longrightarrow> \<not> gbad_mask (excel_flags pd df) ! i"
    using assms by (simp add: excel_gbad_mask getcell_no_alias no_issue_in_blank)
  show "(\<forall>n \<in> set [''mediaType'', ''associatedMedia'']. col df (lower n) = None)
           \<Longrightarrow> \<not> has_media_mask (excel_flags pd df) ! i"
    using assms by (simp add: excel_has_media_mask getcell_no_alias)
  show "(\<forall>n \<in> set [''coordinateUncertaintyInMeters'', ''accuracy_m'']. col df (lower n) = None)
           \<Longrightarrow> \<not> unc2k_mask (excel_flags pd df) ! i"
    using assms by (simp add: excel_unc2k_mask getcell_no_alias numeric_cell_def)
  show "(\<forall>n \<in> set [''basisOfRecord'', ''source'', ''Source'', ''datasetName'', ''Dataset''].
            col df (lower n) = None)
           \<Longrightarrow> bucket (excel_flags pd df) ! i = ''Other''"
    using assms by (simp add: excel_bucket getcell_no_alias) code_simp
  show "(\<forall>n \<in> set [''establishmentMeans'', ''occurrenceRemarks'', ''remarks'', ''Remarks'',
                      ''locality'', ''Locality'', ''habitat'', ''Habitat'']. col df (lower n) = None)
           \<Longrightarrow> \<not> captive_mask (excel_flags pd df) ! i"
    using assms
    by (simp add: excel_captive_mask getcell_no_alias no_hint_in_blank lower_def CAPTIVE_MEANS_def)
  show "(\<forall>n \<in> set [''country'', ''countryCode'', ''decimalLatitude'', ''latitude''].
            col df (lower n) = None)
           \<Longrightarrow> \<not> us_mask (excel_flags pd df) ! i \<and> \<not> valid_mask (excel_flags pd df) ! i"
    using assms
    by (simp add: excel_us_mask excel_valid_mask getcell_no_alias numeric_cell_def between_c_def)
qed

text \<open>
  What claim C6 asks for does hold in the workbook path: the bucket counts of every
  species row sum to its US records.
\<close>

lemma length_species_ids [simp]: "length (species_ids df) = length (rows df)"
  by (simp add: species_ids_def fillna_def getcol_rows)

lemma workbook_species_bucket_sum:
  assumes "scan_excel_combined pd wbs = Inr (Tuple srows ov)" and "r \<in> set srows"
  shows "basis_total (counts r) = usa_records (counts r)"
proof -
  from assms obtain df sid where
    r: "r = finalize sid (flag_counts (excel_flags pd df)
             (s_and (us_mask (excel_flags pd df)) (map (\<lambda>x. x = sid) (species_ids df)))
             (count (map (\<lambda>x. x = sid) (species_ids df))))"
    by (auto simp: scan_excel_combined_def species_rows_of_def Let_def split: if_splits option.splits)
  have "length (bucket (excel_flags pd df))
          = length (s_and (us_mask (excel_flags pd df)) (map (\<lambda>x. x = sid) (species_ids df)))"
    by (simp add: excel_bucket excel_us_mask s_and_def)
  moreover have "set (bucket (excel_flags pd df)) \<subseteq> set BASIS_KEYS"
    by (auto simp: excel_bucket basis_bucket_in_keys)
  ultimately show ?thesis
    by (simp add: r basis_total_flag_counts)
qed

end
